theory Spec2Isabelle
  imports Main "HOL-Library.AList"
begin

section \<open>Python values, exceptions and builtins\<close>

text \<open>
  The scripts of the repository are Python. An exception that leaves a function is a
  value \<open>Inl e\<close> of the result type \<open>error + 'a\<close>; \<open>RequestException\<close> carries the text
  that the handlers print.
\<close>

datatype error =
    RequestException string
  | AttributeError
  | KeyError
  | TypeError
  | ValueError
  | IndexError
  | NameError

text \<open>
  What \<open>response.json()\<close> returns, and what the rows of a DataFrame hold. The type \<open>'f\<close>
  stands for Python's \<open>float\<close>: its arithmetic and its conversions are not modelled but
  taken from the record \<open>builtins\<close> below. A dict is an association list in insertion
  order; its keys are distinct in every value that Python builds.
\<close>

datatype 'f json =
    JNull
  | JBool bool
  | JInt int
  | JFloat 'f
  | JStr string
  | JArr "'f json list"
  | JObj "(string \<times> 'f json) list"

record 'f builtins =
  float_conv :: "'f json \<Rightarrow> error + 'f"      \<comment> \<open>\<open>float(x)\<close>\<close>
  float_truthy :: "'f \<Rightarrow> bool"                \<comment> \<open>\<open>bool(x)\<close> for a float \<open>x\<close>\<close>
  float_mul_int :: "'f \<Rightarrow> int \<Rightarrow> 'f"          \<comment> \<open>\<open>x * n\<close> for a float \<open>x\<close> and an int \<open>n\<close>\<close>
  format_value :: "'f json \<Rightarrow> string"         \<comment> \<open>\<open>str(x)\<close> for an \<open>x\<close> that is not a \<open>str\<close>\<close>

definition bind_err :: "error + 'a \<Rightarrow> ('a \<Rightarrow> error + 'b) \<Rightarrow> error + 'b" where
  "bind_err m f = (case m of Inl e \<Rightarrow> Inl e | Inr x \<Rightarrow> f x)"

text \<open>\<open>bool(x)\<close>, as \<open>if x:\<close> and \<open>not x\<close> use it.\<close>

fun truthy :: "'f builtins \<Rightarrow> 'f json \<Rightarrow> bool" where
  "truthy py JNull = False"
| "truthy py (JBool b) = b"
| "truthy py (JInt i) = (i \<noteq> 0)"
| "truthy py (JFloat x) = float_truthy py x"
| "truthy py (JStr s) = (s \<noteq> [])"
| "truthy py (JArr xs) = (xs \<noteq> [])"
| "truthy py (JObj kvs) = (kvs \<noteq> [])"

text \<open>\<open>x.get(k, d)\<close>: only a dict has the method.\<close>

fun dict_get :: "'f json \<Rightarrow> string \<Rightarrow> 'f json \<Rightarrow> error + 'f json" where
  "dict_get (JObj kvs) k d = Inr (case map_of kvs k of None \<Rightarrow> d | Some v \<Rightarrow> v)"
| "dict_get _ k d = Inl AttributeError"

text \<open>\<open>x[k]\<close> with a string \<open>k\<close>: a missing key raises, and so does every other type.\<close>

fun subscript :: "'f json \<Rightarrow> string \<Rightarrow> error + 'f json" where
  "subscript (JObj kvs) k = (case map_of kvs k of None \<Rightarrow> Inl KeyError | Some v \<Rightarrow> Inr v)"
| "subscript _ k = Inl TypeError"

text \<open>\<open>for y in x\<close>: a list gives its elements, a dict its keys, a string its characters.\<close>

fun py_iter :: "'f json \<Rightarrow> error + 'f json list" where
  "py_iter (JArr xs) = Inr xs"
| "py_iter (JObj kvs) = Inr (map (\<lambda>kv. JStr (fst kv)) kvs)"
| "py_iter (JStr s) = Inr (map (\<lambda>c. JStr [c]) s)"
| "py_iter _ = Inl TypeError"

text \<open>\<open>x.items()\<close>.\<close>

fun dict_items :: "'f json \<Rightarrow> error + (string \<times> 'f json) list" where
  "dict_items (JObj kvs) = Inr kvs"
| "dict_items _ = Inl AttributeError"

text \<open>\<open>sub in s\<close> for two strings.\<close>

fun is_substring :: "string \<Rightarrow> string \<Rightarrow> bool" where
  "is_substring sub [] = (sub = [])"
| "is_substring sub (c # cs) = (take (length sub) (c # cs) = sub \<or> is_substring sub cs)"

text \<open>\<open>k in x\<close> with a string \<open>k\<close>.\<close>

fun py_in :: "string \<Rightarrow> 'f json \<Rightarrow> error + bool" where
  "py_in k (JObj kvs) = Inr (k \<in> set (map fst kvs))"
| "py_in k (JArr xs) = Inr (JStr k \<in> set xs)"
| "py_in k (JStr s) = Inr (is_substring k s)"
| "py_in k _ = Inl TypeError"

text \<open>A value inside an f-string.\<close>

fun py_str :: "'f builtins \<Rightarrow> 'f json \<Rightarrow> string" where
  "py_str py (JStr s) = s"
| "py_str py v = format_value py v"

text \<open>\<open>sep.join(xs)\<close> for a list of strings.\<close>

fun join :: "string \<Rightarrow> string list \<Rightarrow> string" where
  "join sep [] = []"
| "join sep [x] = x"
| "join sep (x # y # ys) = x @ sep @ join sep (y # ys)"

section \<open>The API client (atus\_api\_client.py)\<close>

text \<open>
  The requests library is the environment: \<open>http\<close> answers a request with what the chain
  \<open>requests.get/post(...)\<close>, \<open>raise_for_status()\<close>, \<open>json()\<close> gives, the decoded body or
  the exception raised. The body of a POST is \<open>json.dumps(payload)\<close>; the request keeps
  the payload itself.
\<close>

datatype 'f request =
    GET string
  | POST string "'f json" "(string \<times> string) list"

type_synonym 'f http = "'f request \<Rightarrow> error + 'f json"

definition base_url :: string where
  "base_url = ''https://api.bls.gov/publicAPI/v2''"

definition headers :: "(string \<times> string) list" where
  "headers = [(''Content-type'', ''application/json'')]"

text \<open>The request that \<open>get_latest_series\<close> builds, by the length of \<open>series_ids\<close>.\<close>

definition latest_request :: "string \<Rightarrow> string list \<Rightarrow> 'f request" where
  "latest_request api_key series_ids =
     (if length series_ids = 1
      then GET (base_url @ ''/timeseries/data/'' @ hd series_ids
                @ ''?latest=true&registrationkey='' @ api_key)
      else POST (base_url @ ''/timeseries/data/'')
             (JObj [(''seriesid'', JArr (map JStr series_ids)),
                    (''latest'', JBool True),
                    (''registrationkey'', JStr api_key)])
             headers)"

text \<open>
  A function that prints returns what it printed, line by line, with its result. The
  \<open>try\<close> catches \<open>RequestException\<close> only, any other exception leaves the function. The
  result \<open>None\<close> is \<open>JNull\<close>.
\<close>

definition guarded_call ::
  "'f http \<Rightarrow> string \<Rightarrow> 'f request \<Rightarrow> string list \<times> (error + 'f json)" where
  "guarded_call http what req =
     (case http req of
        Inr j \<Rightarrow> ([], Inr j)
      | Inl (RequestException e) \<Rightarrow> ([''Error fetching '' @ what @ '' data: '' @ e], Inr JNull)
      | Inl other \<Rightarrow> ([], Inl other))"

definition get_latest_series ::
  "'f http \<Rightarrow> string \<Rightarrow> string list \<Rightarrow> string list \<times> (error + 'f json)" where
  "get_latest_series http api_key series_ids =
     guarded_call http ''latest'' (latest_request api_key series_ids)"



subsection \<open>Flattening a response into rows\<close>

text \<open>A row of the DataFrame is the dict it was built from; the DataFrame is the list of rows.\<close>

type_synonym 'f row = "(string \<times> 'f json) list"

text \<open>The inner loop over \<open>item.get('footnotes', [])\<close>.\<close>

fun footnote_texts :: "'f builtins \<Rightarrow> 'f json list \<Rightarrow> error + string list" where
  "footnote_texts py [] = Inr []"
| "footnote_texts py (footnote # rest) =
     (if truthy py footnote
      then bind_err (dict_get footnote ''code'' (JStr '''')) (\<lambda>code.
           bind_err (dict_get footnote ''text'' (JStr '''')) (\<lambda>text.
           bind_err (footnote_texts py rest) (\<lambda>more.
           Inr ((py_str py code @ '': '' @ py_str py text) # more))))
      else footnote_texts py rest)"

text \<open>The loop \<open>row[f'calc_{calc_type}'] = calc_value\<close>.\<close>

fun add_calculations :: "(string \<times> 'f json) list \<Rightarrow> 'f row \<Rightarrow> 'f row" where
  "add_calculations [] row = row"
| "add_calculations ((calc_type, calc_value) # rest) row =
     add_calculations rest (AList.update (''calc_'' @ calc_type) calc_value row)"

text \<open>\<open>float(item['value']) if item['value'] != '-' else None\<close>.\<close>

definition observation_value :: "'f builtins \<Rightarrow> 'f json \<Rightarrow> error + 'f json" where
  "observation_value py item =
     bind_err (subscript item ''value'') (\<lambda>v.
       if v \<noteq> JStr ''-''
       then bind_err (subscript item ''value'') (\<lambda>v'.
            bind_err (float_conv py v') (\<lambda>x. Inr (JFloat x)))
       else Inr JNull)"

text \<open>The body of the loop over \<open>series['data']\<close>: one row for one item.\<close>

definition make_row :: "'f builtins \<Rightarrow> 'f json \<Rightarrow> 'f json \<Rightarrow> 'f json \<Rightarrow> error + 'f row" where
  "make_row py series_id series_catalog item =
     bind_err (dict_get series_catalog ''series_title'' (JStr '''')) (\<lambda>series_title.
     bind_err (dict_get series_catalog ''survey_name'' (JStr '''')) (\<lambda>survey_name.
     bind_err (dict_get series_catalog ''survey_abbreviation'' (JStr '''')) (\<lambda>survey_abbreviation.
     bind_err (subscript item ''year'') (\<lambda>year.
     bind_err (subscript item ''period'') (\<lambda>period.
     bind_err (dict_get item ''periodName'' (JStr '''')) (\<lambda>period_name.
     bind_err (observation_value py item) (\<lambda>val.
     bind_err (dict_get item ''latest'' (JBool False)) (\<lambda>latest.
     bind_err (dict_get item ''footnotes'' (JArr [])) (\<lambda>fs.
     bind_err (py_iter fs) (\<lambda>fl.
     bind_err (footnote_texts py fl) (\<lambda>footnotes.
     bind_err (py_in ''calculations'' item) (\<lambda>has_calc.
     bind_err (if has_calc
               then bind_err (subscript item ''calculations'') dict_items
               else Inr []) (\<lambda>calcs.
     Inr (add_calculations calcs
            (AList.update ''footnotes'' (JStr (if footnotes \<noteq> [] then join ''; '' footnotes else ''''))
               [(''series_id'', series_id),
                (''series_title'', series_title),
                (''survey_name'', survey_name),
                (''survey_abbreviation'', survey_abbreviation),
                (''year'', year),
                (''period'', period),
                (''period_name'', period_name),
                (''value'', val),
                (''latest'', latest)])))))))))))))))"

fun item_rows :: "'f builtins \<Rightarrow> 'f json \<Rightarrow> 'f json \<Rightarrow> 'f json list \<Rightarrow> error + 'f row list" where
  "item_rows py series_id series_catalog [] = Inr []"
| "item_rows py series_id series_catalog (item # rest) =
     bind_err (make_row py series_id series_catalog item) (\<lambda>row.
     bind_err (item_rows py series_id series_catalog rest) (\<lambda>rows.
     Inr (row # rows)))"

text \<open>The body of the loop over \<open>json_data['Results']['series']\<close>.\<close>

definition series_rows :: "'f builtins \<Rightarrow> 'f json \<Rightarrow> error + 'f row list" where
  "series_rows py series =
     bind_err (subscript series ''seriesID'') (\<lambda>series_id.
     bind_err (dict_get series ''catalog'' (JObj [])) (\<lambda>series_catalog.
     bind_err (subscript series ''data'') (\<lambda>d.
     bind_err (py_iter d) (\<lambda>items.
     item_rows py series_id series_catalog items))))"

fun all_rows :: "'f builtins \<Rightarrow> 'f json list \<Rightarrow> error + 'f row list" where
  "all_rows py [] = Inr []"
| "all_rows py (series # rest) =
     bind_err (series_rows py series) (\<lambda>rows.
     bind_err (all_rows py rest) (\<lambda>more.
     Inr (rows @ more)))"

text \<open>
  \<open>parse_response_to_dataframe\<close>: what it prints, and the exception or the result, which is
  \<open>None\<close> or the DataFrame. In the guard \<open>json_data.get('status')\<close> is evaluated only for a
  truthy \<open>json_data\<close>; the \<open>print\<close> inside the guard calls \<open>json_data.get\<close> once more, on
  whatever \<open>json_data\<close> is.
\<close>

definition parse_response_to_dataframe ::
  "'f builtins \<Rightarrow> 'f json \<Rightarrow> string list \<times> (error + 'f row list option)" where
  "parse_response_to_dataframe py json_data =
     (case (if \<not> truthy py json_data then Inr True
            else bind_err (dict_get json_data ''status'' JNull)
                   (\<lambda>status. Inr (status \<noteq> JStr ''REQUEST_SUCCEEDED''))) of
        Inl e \<Rightarrow> ([], Inl e)
      | Inr True \<Rightarrow>
          (case dict_get json_data ''message'' (JStr ''Unknown error'') of
             Inl e \<Rightarrow> ([], Inl e)
           | Inr message \<Rightarrow> ([''Invalid response: '' @ py_str py message], Inr None))
      | Inr False \<Rightarrow>
          ([], bind_err (subscript json_data ''Results'') (\<lambda>results.
               bind_err (subscript results ''series'') (\<lambda>ss.
               bind_err (py_iter ss) (\<lambda>series_list.
               bind_err (all_rows py series_list) (\<lambda>all_data.
               Inr (Some all_data)))))))"


section \<open>Strings and regular expressions of the PDF scripts\<close>

text \<open>
  A text is a \<open>string\<close>, one \<open>char\<close> for one code point, so the model covers the
  code points below 256. Among them the decimal digits of \<open>\d\<close> are \<open>0\<close> to \<open>9\<close>, and the
  white space of \<open>\s\<close> and of \<open>str.strip()\<close> is the list below.
\<close>

definition is_digit :: "char \<Rightarrow> bool" where
  "is_digit c = (c \<in> set ''0123456789'')"

definition is_space :: "char \<Rightarrow> bool" where
  "is_space c = ((of_char c :: nat) \<in> set [9, 10, 11, 12, 13, 28, 29, 30, 31, 32, 133, 160])"

definition newline :: char where
  "newline = CHR 0x0A"

definition strip :: "string \<Rightarrow> string" where
  "strip s = rev (dropWhile is_space (rev (dropWhile is_space s)))"

text \<open>\<open>s.split(sep)\<close> for a one-character separator: never an empty list.\<close>

fun split_char :: "char \<Rightarrow> string \<Rightarrow> string list" where
  "split_char sep [] = [[]]"
| "split_char sep (x # xs) =
     (if x = sep then [] # split_char sep xs
      else (case split_char sep xs of
              l # ls \<Rightarrow> (x # l) # ls
            | [] \<Rightarrow> [[x]]))"

text \<open>\<open>s.split(sub)[0]\<close>: the text before the first occurrence of \<open>sub\<close>, all of \<open>s\<close> without one.\<close>

fun before_first :: "string \<Rightarrow> string \<Rightarrow> string" where
  "before_first sub [] = []"
| "before_first sub (x # xs) =
     (if take (length sub) (x # xs) = sub then [] else x # before_first sub xs)"

definition split_first :: "string \<Rightarrow> string \<Rightarrow> error + string" where
  "split_first sub s = (if sub = [] then Inl ValueError else Inr (before_first sub s))"

text \<open>
  \<open>int(s)\<close> on a run of digits, which is all that the scripts pass to it (a group \<open>\d+\<close>
  of a match); any other string is answered with \<open>ValueError\<close>. Integers are unbounded;
  the limit that newer interpreters put on the number of digits of \<open>s\<close> (4300 unless
  configured) is not modelled.
\<close>

definition digit_value :: "char \<Rightarrow> int" where
  "digit_value c = int (of_char c) - 48"

definition digits_value :: "string \<Rightarrow> int" where
  "digits_value s = foldl (\<lambda>n c. 10 * n + digit_value c) 0 s"

definition py_int :: "string \<Rightarrow> error + int" where
  "py_int s = (if s \<noteq> [] \<and> list_all is_digit s then Inr (digits_value s) else Inl ValueError)"

text \<open>
  The patterns of the scripts are sequences of single characters, character classes under a
  greedy \<open>+\<close>, groups that do not nest, and \<open>$\<close>. A pattern is the list of its items, a
  group being the items between \<open>Open\<close> and \<open>Close\<close>.
\<close>

datatype cls = Lit char | Digit | Space | Not char

fun cls_match :: "cls \<Rightarrow> char \<Rightarrow> bool" where
  "cls_match (Lit c) x = (x = c)"
| "cls_match Digit x = is_digit x"
| "cls_match Space x = is_space x"
| "cls_match (Not c) x = (x \<noteq> c)"

datatype item = One cls | Plus cls | Open | Close | Dollar

definition lits :: "string \<Rightarrow> item list" where
  "lits s = map (\<lambda>c. One (Lit c)) s"

text \<open>The longest repetition first, then shorter ones, down to one character.\<close>

fun plus_try :: "(nat \<Rightarrow> 'a option) \<Rightarrow> nat \<Rightarrow> 'a option" where
  "plus_try f 0 = None"
| "plus_try f (Suc n) = (case f (Suc n) of Some r \<Rightarrow> Some r | None \<Rightarrow> plus_try f n)"

text \<open>
  Matching a pattern at the start of a text, with backtracking: the groups closed so far in
  the rest of the pattern and the text after the match. The third argument is the text of
  the group that is open.
\<close>

fun match_items :: "item list \<Rightarrow> string \<Rightarrow> string option \<Rightarrow> (string list \<times> string) option" where
  "match_items [] s g = Some ([], s)"
| "match_items (One c # r) s g =
     (case s of
        [] \<Rightarrow> None
      | x # xs \<Rightarrow> if cls_match c x then match_items r xs (map_option (\<lambda>a. a @ [x]) g) else None)"
| "match_items (Plus c # r) s g =
     plus_try (\<lambda>n. match_items r (drop n s) (map_option (\<lambda>a. a @ take n s) g))
       (length (takeWhile (cls_match c) s))"
| "match_items (Open # r) s g = match_items r s (Some [])"
| "match_items (Close # r) s g =
     map_option (\<lambda>(gs, rest). ((case g of None \<Rightarrow> [] | Some a \<Rightarrow> a) # gs, rest))
       (match_items r s None)"
| "match_items (Dollar # r) s g =
     (if s = [] \<or> s = [newline] then match_items r s g else None)"

text \<open>
  \<open>re.search\<close>: the leftmost match, as the text before it, its groups and the text after it.
\<close>

fun search :: "item list \<Rightarrow> string \<Rightarrow> (string \<times> string list \<times> string) option" where
  "search r [] = map_option (\<lambda>(gs, rest). ([], gs, rest)) (match_items r [] None)"
| "search r (x # xs) =
     (case match_items r (x # xs) None of
        Some (gs, rest) \<Rightarrow> Some ([], gs, rest)
      | None \<Rightarrow> map_option (\<lambda>(pre, gs, rest). (x # pre, gs, rest)) (search r xs))"

text \<open>
  \<open>re.findall\<close> for a pattern without groups and \<open>re.sub(pattern, '', s)\<close>: the matches from
  left to right, none overlapping another. The number counts the characters still inside the
  last match.
\<close>

fun findall_from :: "item list \<Rightarrow> nat \<Rightarrow> string \<Rightarrow> string list" where
  "findall_from r n [] = (case match_items r [] None of Some m \<Rightarrow> [[]] | None \<Rightarrow> [])"
| "findall_from r (Suc n) (x # xs) = findall_from r n xs"
| "findall_from r 0 (x # xs) =
     (case match_items r (x # xs) None of
        Some (gs, rest) \<Rightarrow>
          take (length (x # xs) - length rest) (x # xs)
            # findall_from r (length (x # xs) - length rest - 1) xs
      | None \<Rightarrow> findall_from r 0 xs)"

definition findall :: "item list \<Rightarrow> string \<Rightarrow> string list" where
  "findall r s = findall_from r 0 s"

fun remove_from :: "item list \<Rightarrow> nat \<Rightarrow> string \<Rightarrow> string" where
  "remove_from r n [] = []"
| "remove_from r (Suc n) (x # xs) = remove_from r n xs"
| "remove_from r 0 (x # xs) =
     (case match_items r (x # xs) None of
        Some (gs, rest) \<Rightarrow>
          (if length rest = length (x # xs) then x # remove_from r 0 xs
           else remove_from r (length (x # xs) - length rest - 1) xs)
      | None \<Rightarrow> x # remove_from r 0 xs)"

definition remove_matches :: "item list \<Rightarrow> string \<Rightarrow> string" where
  "remove_matches r s = remove_from r 0 s"

text \<open>
  Modelled from PyMuPDF: a document is the list of the texts of its pages, and \<open>doc[i]\<close>
  raises for \<open>i\<close> at or beyond the page count and counts a negative \<open>i\<close> from the end,
  as often as needed.
\<close>

definition doc_page :: "string list \<Rightarrow> int \<Rightarrow> error + string" where
  "doc_page doc i =
     (if int (length doc) \<le> i \<or> doc = [] then Inl IndexError
      else Inr (doc ! nat (i mod int (length doc))))"


text \<open>\<open>m.group(n)\<close> for \<open>n\<close> from 1: a group that the pattern does not have raises.\<close>

definition group :: "string list \<Rightarrow> nat \<Rightarrow> error + string" where
  "group gs n = (if 1 \<le> n \<and> n \<le> length gs then Inr (gs ! (n - 1)) else Inl IndexError)"

section \<open>Key statistics and Table 11A (extract\_atus\_final.py)\<close>

definition decimal_items :: "item list" where
  "decimal_items = [Plus Digit, One (Lit CHR ''.''), Plus Digit]"

definition hours_per_day_items :: "item list" where
  "hours_per_day_items =
     [Plus (Not CHR ''(''), One (Lit CHR ''(''), Open] @ decimal_items @ [Close]
     @ lits '' hours per day)''"

definition tv_pattern :: "item list" where
  "tv_pattern = lits ''Watching TV was the leisure'' @ hours_per_day_items"

definition leisure_pattern :: "item list" where
  "leisure_pattern = lits ''all leisure time'' @ hours_per_day_items"

definition gaming_pattern :: "item list" where
  "gaming_pattern =
     [Open, Plus Digit, Close] @ lits '' minutes playing games and'' @ [Plus Space]
     @ lits ''using a computer for leisure''"

definition social_pattern :: "item list" where
  "social_pattern = [Open, Plus Digit, Close] @ lits '' minutes socializing and communicating''"

definition gender_pattern :: "item list" where
  "gender_pattern =
     lits ''men spent more time'' @ [Plus (Not CHR ''('')] @ lits ''than'' @ [Plus Space]
     @ lits ''did women ('' @ [Open] @ decimal_items @ [Close]
     @ lits '' hours, compared with '' @ [Open] @ decimal_items @ [Close] @ lits '' hours)''"

text \<open>\<open>key_stats[k] = float(m.group(n))\<close> and \<open>key_stats[k] = int(m.group(n))\<close>.\<close>

definition store_float ::
  "'f builtins \<Rightarrow> string \<Rightarrow> nat \<Rightarrow> string list \<Rightarrow> 'f row \<Rightarrow> error + 'f row" where
  "store_float py k n gs key_stats =
     bind_err (group gs n) (\<lambda>g.
     bind_err (float_conv py (JStr g)) (\<lambda>x.
     Inr (AList.update k (JFloat x) key_stats)))"

definition store_int :: "string \<Rightarrow> nat \<Rightarrow> string list \<Rightarrow> 'f row \<Rightarrow> error + 'f row" where
  "store_int k n gs key_stats =
     bind_err (group gs n) (\<lambda>g.
     bind_err (py_int g) (\<lambda>i.
     Inr (AList.update k (JInt i) key_stats)))"

text \<open>\<open>m = re.search(pattern, text)\<close> followed by \<open>if m: ...\<close>.\<close>

definition if_match ::
  "item list \<Rightarrow> string \<Rightarrow> (string list \<Rightarrow> 'f row \<Rightarrow> error + 'f row) \<Rightarrow> 'f row \<Rightarrow> error + 'f row" where
  "if_match pattern text store key_stats =
     (case search pattern text of
        None \<Rightarrow> Inr key_stats
      | Some (pre, gs, post) \<Rightarrow> store gs key_stats)"

text \<open>The body of \<open>extract_key_statistics\<close> on the text of page 2.\<close>

definition key_statistics_of_text :: "'f builtins \<Rightarrow> string \<Rightarrow> error + 'f row" where
  "key_statistics_of_text py text =
     bind_err (if_match tv_pattern text (store_float py ''tv_hours'' 1) []) (\<lambda>s1.
     bind_err (if_match leisure_pattern text (store_float py ''total_leisure_hours'' 1) s1) (\<lambda>s2.
     bind_err (if_match gaming_pattern text (store_int ''gaming_minutes'' 1) s2) (\<lambda>s3.
     bind_err (if_match social_pattern text (store_int ''socializing_minutes'' 1) s3) (\<lambda>s4.
     if_match gender_pattern text
       (\<lambda>gs ks. bind_err (store_float py ''men_leisure_hours'' 1 gs ks)
                  (store_float py ''women_leisure_hours'' 2 gs)) s4))))"

definition extract_key_statistics :: "'f builtins \<Rightarrow> string list \<Rightarrow> error + 'f row" where
  "extract_key_statistics py doc = bind_err (doc_page doc 1) (key_statistics_of_text py)"

definition demographic_keywords :: "string list" where
  "demographic_keywords =
     [''Total, 15 years and over'', ''Men'', ''Women'', ''to 24 years'',
      ''to 34 years'', ''to 44 years'', ''to 54 years'',
      ''to 64 years'', ''65 to 74 years'', ''75 years and over'',
      ''Less than a high school'', ''High school grad'',
      ''Bachelor'' @ [CHR 0x27] @ ''s degree'']"

definition has_keyword :: "string \<Rightarrow> bool" where
  "has_keyword line = list_ex (\<lambda>keyword. is_substring keyword line) demographic_keywords"

text \<open>
  The dict appended for a line whose \<open>numbers\<close> are at least seven; \<open>numbers ! i\<close> is read
  below that length only.
\<close>

definition table_11a_row :: "'f builtins \<Rightarrow> string \<Rightarrow> string list \<Rightarrow> error + 'f row" where
  "table_11a_row py line numbers =
     bind_err (split_first (numbers ! 0) line) (\<lambda>pre.
     bind_err (float_conv py (JStr (numbers ! 0))) (\<lambda>total_leisure.
     bind_err (float_conv py (JStr (numbers ! 1))) (\<lambda>sports.
     bind_err (float_conv py (JStr (numbers ! 2))) (\<lambda>socializing.
     bind_err (float_conv py (JStr (numbers ! 3))) (\<lambda>tv.
     bind_err (float_conv py (JStr (numbers ! 4))) (\<lambda>reading.
     bind_err (float_conv py (JStr (numbers ! 5))) (\<lambda>relaxing.
     bind_err (float_conv py (JStr (numbers ! 6))) (\<lambda>gaming.
     bind_err (if 7 < length numbers
               then bind_err (float_conv py (JStr (numbers ! 7))) (\<lambda>x. Inr (JFloat x))
               else Inr (JInt 0)) (\<lambda>other.
     Inr [(''demographic'', JStr (strip pre)),
          (''total_leisure'', JFloat total_leisure),
          (''sports'', JFloat sports),
          (''socializing'', JFloat socializing),
          (''tv'', JFloat tv),
          (''reading'', JFloat reading),
          (''relaxing'', JFloat relaxing),
          (''gaming'', JFloat gaming),
          (''other'', other)])))))))))"

text \<open>What one line of the page adds to \<open>data_rows\<close>: nothing or one row.\<close>

definition table_11a_line :: "'f builtins \<Rightarrow> string \<Rightarrow> error + 'f row list" where
  "table_11a_line py line =
     (if strip line = [] then Inr []
      else if has_keyword line
      then (let numbers = findall decimal_items line in
            if numbers \<noteq> [] \<and> 7 \<le> length numbers
            then bind_err (table_11a_row py line numbers) (\<lambda>row. Inr [row])
            else Inr [])
      else Inr [])"

fun table_11a_lines :: "'f builtins \<Rightarrow> string list \<Rightarrow> error + 'f row list" where
  "table_11a_lines py [] = Inr []"
| "table_11a_lines py (line # rest) =
     bind_err (table_11a_line py line) (\<lambda>rows.
     bind_err (table_11a_lines py rest) (\<lambda>more.
     Inr (rows @ more)))"

definition extract_table_11a_data :: "'f builtins \<Rightarrow> string list \<Rightarrow> int \<Rightarrow> error + 'f row list" where
  "extract_table_11a_data py doc page_num =
     bind_err (doc_page doc (page_num - 1)) (\<lambda>text.
     table_11a_lines py (split_char newline text))"

text \<open>\<open>x * n\<close> for an int \<open>n\<close>: numbers multiply, strings and lists repeat.\<close>

fun py_mul_int :: "'f builtins \<Rightarrow> 'f json \<Rightarrow> int \<Rightarrow> error + 'f json" where
  "py_mul_int py (JFloat x) n = Inr (JFloat (float_mul_int py x n))"
| "py_mul_int py (JInt i) n = Inr (JInt (i * n))"
| "py_mul_int py (JBool b) n = Inr (JInt ((if b then 1 else 0) * n))"
| "py_mul_int py (JStr s) n = Inr (JStr (concat (replicate (nat n) s)))"
| "py_mul_int py (JArr xs) n = Inr (JArr (concat (replicate (nat n) xs)))"
| "py_mul_int py JNull n = Inl TypeError"
| "py_mul_int py (JObj kvs) n = Inl TypeError"

text \<open>\<open>if src in key_stats: key_stats[dst] = key_stats[src] * 60\<close>.\<close>

definition add_minutes :: "'f builtins \<Rightarrow> string \<Rightarrow> string \<Rightarrow> 'f row \<Rightarrow> error + 'f row" where
  "add_minutes py src dst key_stats =
     (case map_of key_stats src of
        None \<Rightarrow> Inr key_stats
      | Some h \<Rightarrow> bind_err (py_mul_int py h 60) (\<lambda>m. Inr (AList.update dst m key_stats)))"

text \<open>
  \<open>process_and_save_data\<close> changes the dict \<open>key_stats\<close> in place, in its first two
  statements; what follows them writes the CSV files and prints the report, and only reads
  \<open>key_stats\<close>. The model returns the dict as the function leaves it, with the exception
  if one of the two statements raised.
\<close>

definition process_and_save_data :: "'f builtins \<Rightarrow> 'f row \<Rightarrow> 'f row \<times> error option" where
  "process_and_save_data py key_stats =
     (case add_minutes py ''tv_hours'' ''tv_minutes'' key_stats of
        Inl e \<Rightarrow> (key_stats, Some e)
      | Inr s1 \<Rightarrow>
          (case add_minutes py ''total_leisure_hours'' ''total_leisure_minutes'' s1 of
             Inl e \<Rightarrow> (s1, Some e)
           | Inr s2 \<Rightarrow> (s2, None)))"

section \<open>The time table scraper (scrape\_atus.py)\<close>

definition time_pattern :: "item list" where
  "time_pattern = [Open, Plus Digit, Close, One (Lit CHR '':''), Open, Plus Digit, Close]"

definition trailing_dots :: "item list" where
  "trailing_dots = [Plus (Lit CHR ''.''), Dollar]"

record time_row =
  category :: string
  hours :: int
  minutes :: int
  total_minutes :: int

text \<open>The body of the loop over the lines: nothing or one row.\<close>

definition time_use_line :: "string \<Rightarrow> error + time_row list" where
  "time_use_line raw =
     (let line = strip raw in
      if line = [] then Inr []
      else (case search time_pattern line of
              None \<Rightarrow> Inr []
            | Some (pre, gs, post) \<Rightarrow>
                bind_err (bind_err (group gs 1) py_int) (\<lambda>h.
                bind_err (bind_err (group gs 2) py_int) (\<lambda>m.
                let category_text = strip (remove_matches time_pattern line);
                    category_text = strip (remove_matches trailing_dots category_text)
                in if category_text \<noteq> []
                   then Inr [\<lparr>category = category_text, hours = h, minutes = m,
                              total_minutes = h * 60 + m\<rparr>]
                   else Inr []))))"

fun time_use_lines :: "string list \<Rightarrow> error + time_row list" where
  "time_use_lines [] = Inr []"
| "time_use_lines (line # rest) =
     bind_err (time_use_line line) (\<lambda>rows.
     bind_err (time_use_lines rest) (\<lambda>more.
     Inr (rows @ more)))"

text \<open>
  Modelled from pandas: \<open>df.drop_duplicates(subset=['category'])\<close> keeps the first row of
  each category, and \<open>df.sort_values('total_minutes', ascending=False)\<close> orders the rows by
  falling \<open>total_minutes\<close>. pandas leaves the order of rows with equal keys open; the model
  keeps them in their order.
\<close>

fun drop_duplicates :: "string list \<Rightarrow> time_row list \<Rightarrow> time_row list" where
  "drop_duplicates seen [] = []"
| "drop_duplicates seen (r # rs) =
     (if category r \<in> set seen then drop_duplicates seen rs
      else r # drop_duplicates (category r # seen) rs)"

definition sort_values_desc :: "time_row list \<Rightarrow> time_row list" where
  "sort_values_desc df = sort_key (\<lambda>r. - total_minutes r) df"

definition extract_time_use_data :: "string list \<Rightarrow> error + time_row list" where
  "extract_time_use_data doc =
     bind_err (time_use_lines (split_char newline (concat doc))) (\<lambda>df.
     if df \<noteq> []
     then Inr (sort_values_desc (drop_duplicates [] (filter (\<lambda>r. 0 < total_minutes r) df)))
     else Inr df)"

section \<open>Looking at pages (examine\_pdf\_structure.py)\<close>

text \<open>A number inside an f-string.\<close>

fun show_nat :: "nat \<Rightarrow> string" where
  "show_nat n =
     (if n < 10 then [''0123456789'' ! n]
      else show_nat (n div 10) @ [''0123456789'' ! (n mod 10)])"

definition show_int :: "int \<Rightarrow> string" where
  "show_int i = (if i < 0 then ''-'' @ show_nat (nat (- i)) else show_nat (nat i))"

text \<open>\<open>s.lower()\<close> on the code points below 256.\<close>

definition lower_char :: "char \<Rightarrow> char" where
  "lower_char c =
     (let n = (of_char c :: nat)
      in if (65 \<le> n \<and> n \<le> 90) \<or> (192 \<le> n \<and> n \<le> 222 \<and> n \<noteq> 215)
         then char_of (n + 32) else c)"

definition clock_items :: "item list" where
  "clock_items = [Plus Digit, One (Lit CHR '':''), Plus Digit]"

definition mention_words :: "string list" where
  "mention_words = [''game'', ''gaming'', ''television'', ''tv'', ''leisure'', ''computer'']"

text \<open>
  The module imports \<open>fitz\<close> and \<open>Path\<close> only; \<open>import re\<close> stands inside the
  \<open>if __name__ == "__main__":\<close> block. So the global name \<open>re\<close> is bound when the file
  runs as a script and unbound when the module is imported: \<open>re_bound\<close> says which. The
  loop \<open>for line in lines: if re.search(...)\<close> looks the name up in its first round.
\<close>

fun time_value_lines :: "bool \<Rightarrow> string list \<Rightarrow> string list \<times> error option" where
  "time_value_lines re_bound [] = ([], None)"
| "time_value_lines re_bound (line # rest) =
     (if \<not> re_bound then ([], Some NameError)
      else (case time_value_lines re_bound rest of
              (out, e) \<Rightarrow>
                ((if search clock_items line \<noteq> None then [''  > '' @ strip line] else []) @ out, e)))"

definition mention_lines :: "string list \<Rightarrow> string list" where
  "mention_lines lines =
     map (\<lambda>line. ''  > '' @ strip line)
       (filter (\<lambda>line. list_ex (\<lambda>word. is_substring word (map lower_char line)) mention_words)
          lines)"

text \<open>The body of the loop for a page that the document has: the prints, and the exception.\<close>

definition examine_page :: "bool \<Rightarrow> int \<Rightarrow> string \<Rightarrow> string list \<times> error option" where
  "examine_page re_bound page_num text =
     (let rule = replicate 80 CHR ''='';
          out1 = [newline # rule,
                  ''PAGE '' @ show_int page_num @ '' - First 2000 characters:'',
                  rule,
                  take 2000 text,
                  newline # ''--- Lines with time values (HH:MM format) on page ''
                    @ show_int page_num @ '' ---''];
          lines = split_char newline text
      in (case time_value_lines re_bound lines of
            (out2, Some e) \<Rightarrow> (out1 @ out2, Some e)
          | (out2, None) \<Rightarrow>
              (out1 @ out2
               @ [newline # ''--- Lines with gaming/TV/leisure mentions on page ''
                    @ show_int page_num @ '' ---'']
               @ mention_lines lines, None)))"

fun examine_page_with_data :: "bool \<Rightarrow> string list \<Rightarrow> int list \<Rightarrow> string list \<times> error option" where
  "examine_page_with_data re_bound doc [] = ([], None)"
| "examine_page_with_data re_bound doc (page_num # rest) =
     (if page_num \<le> int (length doc)
      then (case doc_page doc (page_num - 1) of
              Inl e \<Rightarrow> ([], Some e)
            | Inr text \<Rightarrow>
                (case examine_page re_bound page_num text of
                   (out, Some e) \<Rightarrow> (out, Some e)
                 | (out, None) \<Rightarrow>
                     (case examine_page_with_data re_bound doc rest of
                        (later, e) \<Rightarrow> (out @ later, e))))
      else examine_page_with_data re_bound doc rest)"

section \<open>The first API script (fetch\_atus\_api.py)\<close>

text \<open>A computation that prints: what it printed, then its exception or its result.\<close>

type_synonym 'a printing = "string list \<times> (error + 'a)"

definition and_then :: "'a printing \<Rightarrow> ('a \<Rightarrow> 'b printing) \<Rightarrow> 'b printing" where
  "and_then m f =
     (case m of
        (out, Inl e) \<Rightarrow> (out, Inl e)
      | (out, Inr x) \<Rightarrow> (case f x of (later, r) \<Rightarrow> (out @ later, r)))"

definition quiet :: "error + 'a \<Rightarrow> 'a printing" where
  "quiet m = ([], m)"

definition say :: "string \<Rightarrow> unit printing" where
  "say line = ([line], Inr ())"

definition fetch_atus_data ::
  "'f builtins \<Rightarrow> 'f http \<Rightarrow> string list \<Rightarrow> string \<Rightarrow> string \<Rightarrow> 'f json printing" where
  "fetch_atus_data py http series_ids start_year end_year =
     and_then (say (''Fetching data for series: '' @ py_str py (JArr (map JStr series_ids)))) (\<lambda>_.
     and_then (say (''Years: '' @ start_year @ '' to '' @ end_year)) (\<lambda>_.
     (case http (POST ''https://api.bls.gov/publicAPI/v2/timeseries/data/''
                   (JObj [(''seriesid'', JArr (map JStr series_ids)),
                          (''startyear'', JStr start_year),
                          (''endyear'', JStr end_year)])
                   headers) of
        Inl (RequestException e) \<Rightarrow> ([''Error making API request: '' @ e], Inr JNull)
      | Inl other \<Rightarrow> ([], Inl other)
      | Inr json_data \<Rightarrow>
          and_then (quiet (subscript json_data ''status'')) (\<lambda>status.
            if status = JStr ''REQUEST_SUCCEEDED''
            then ([''API request successful!''], Inr json_data)
            else and_then (quiet (dict_get json_data ''message'' (JStr ''Unknown error''))) (\<lambda>message.
                 ([''API request failed: '' @ py_str py message], Inr JNull))))))"

text \<open>\<open>sep.join(xs)\<close> for a list of values: every one must be a string.\<close>

fun py_join :: "string \<Rightarrow> 'f json list \<Rightarrow> error + string" where
  "py_join sep [] = Inr []"
| "py_join sep [JStr x] = Inr x"
| "py_join sep (JStr x # y # ys) = bind_err (py_join sep (y # ys)) (\<lambda>t. Inr (x @ sep @ t))"
| "py_join sep (_ # ys) = Inl TypeError"

fun atus_footnotes :: "'f builtins \<Rightarrow> 'f json list \<Rightarrow> error + 'f json list" where
  "atus_footnotes py [] = Inr []"
| "atus_footnotes py (footnote # rest) =
     (if truthy py footnote
      then bind_err (dict_get footnote ''text'' (JStr [])) (\<lambda>text.
           bind_err (atus_footnotes py rest) (\<lambda>later. Inr (text # later)))
      else atus_footnotes py rest)"

definition atus_row :: "'f builtins \<Rightarrow> 'f json \<Rightarrow> 'f json \<Rightarrow> 'f json \<Rightarrow> error + 'f row" where
  "atus_row py series_id series_catalog item =
     bind_err (dict_get series_catalog ''series_title'' (JStr [])) (\<lambda>series_title.
     bind_err (subscript item ''year'') (\<lambda>year.
     bind_err (subscript item ''period'') (\<lambda>period.
     bind_err (subscript item ''value'') (\<lambda>v.
     bind_err (float_conv py v) (\<lambda>x.
     bind_err (dict_get item ''periodName'' (JStr [])) (\<lambda>period_name.
     bind_err (dict_get item ''latest'' (JBool False)) (\<lambda>latest.
     bind_err (dict_get item ''footnotes'' (JArr [])) (\<lambda>fs.
     bind_err (py_iter fs) (\<lambda>fl.
     bind_err (atus_footnotes py fl) (\<lambda>footnotes.
     bind_err (if footnotes \<noteq> [] then py_join '', '' footnotes else Inr []) (\<lambda>joined.
     Inr (AList.update ''footnotes'' (JStr joined)
            [(''series_id'', series_id),
             (''series_title'', series_title),
             (''year'', year),
             (''period'', period),
             (''value'', JFloat x),
             (''periodName'', period_name),
             (''latest'', latest)]))))))))))))"

fun atus_item_rows :: "'f builtins \<Rightarrow> 'f json \<Rightarrow> 'f json \<Rightarrow> 'f json list \<Rightarrow> error + 'f row list" where
  "atus_item_rows py series_id series_catalog [] = Inr []"
| "atus_item_rows py series_id series_catalog (item # rest) =
     bind_err (atus_row py series_id series_catalog item) (\<lambda>row.
     bind_err (atus_item_rows py series_id series_catalog rest) (\<lambda>rows.
     Inr (row # rows)))"

definition atus_series :: "'f builtins \<Rightarrow> 'f json \<Rightarrow> 'f row list printing" where
  "atus_series py series =
     and_then (quiet (subscript series ''seriesID'')) (\<lambda>series_id.
     and_then (quiet (dict_get series ''catalog'' (JObj []))) (\<lambda>series_catalog.
     and_then (say (newline # ''Processing series: '' @ py_str py series_id)) (\<lambda>_.
     and_then (quiet (dict_get series_catalog ''series_title'' (JStr ''N/A''))) (\<lambda>title.
     and_then (say (''Series title: '' @ py_str py title)) (\<lambda>_.
     and_then (quiet (subscript series ''data'')) (\<lambda>d.
     and_then (quiet (py_iter d)) (\<lambda>items.
     quiet (atus_item_rows py series_id series_catalog items))))))))"

fun atus_all_series :: "'f builtins \<Rightarrow> 'f json list \<Rightarrow> 'f row list printing" where
  "atus_all_series py [] = ([], Inr [])"
| "atus_all_series py (series # rest) =
     and_then (atus_series py series) (\<lambda>rows.
     and_then (atus_all_series py rest) (\<lambda>later.
     ([], Inr (rows @ later))))"

definition parse_atus_response :: "'f builtins \<Rightarrow> 'f json \<Rightarrow> 'f row list option printing" where
  "parse_atus_response py json_data =
     and_then (quiet (if \<not> truthy py json_data then Inr True
                      else bind_err (py_in ''Results'' json_data) (\<lambda>found. Inr (\<not> found))))
       (\<lambda>give_up.
          if give_up then ([], Inr None)
          else and_then (quiet (subscript json_data ''Results'')) (\<lambda>results.
               and_then (quiet (subscript results ''series'')) (\<lambda>ss.
               and_then (quiet (py_iter ss)) (\<lambda>series_list.
               and_then (atus_all_series py series_list) (\<lambda>all_data.
               ([], Inr (Some all_data)))))))"

definition atus_series_ids :: "string list" where
  "atus_series_ids =
     [''TUU10101AA01000000'', ''TUU10301AA01000000'', ''TUU10801AA01000000'',
      ''TUU10802AA01000000'', ''TUU10401AA01000000'']"

definition test_series :: "string list" where
  "test_series = [''CUUR0000SA0'']"

text \<open>
  What the statements at the top level of the script do, in order: a line printed, the head
  of a DataFrame printed, a CSV file written.
\<close>

datatype 'f event =
    Print string
  | PrintHead "'f row list"
  | ToCsv string "'f row list"

type_synonym ('f, 'a) script = "'f event list \<times> (error + 'a)"

definition run :: "'a printing \<Rightarrow> ('f, 'a) script" where
  "run m = (map Print (fst m), snd m)"

definition then_script :: "('f, 'a) script \<Rightarrow> ('a \<Rightarrow> ('f, 'b) script) \<Rightarrow> ('f, 'b) script" where
  "then_script m f =
     (case m of
        (evs, Inl e) \<Rightarrow> (evs, Inl e)
      | (evs, Inr x) \<Rightarrow> (case f x of (later, r) \<Rightarrow> (evs @ later, r)))"

definition fetch_atus_api_script :: "'f builtins \<Rightarrow> 'f http \<Rightarrow> ('f, unit) script" where
  "fetch_atus_api_script py http =
     then_script (run (say ''Testing BLS API connection...'')) (\<lambda>_.
     then_script (run (fetch_atus_data py http test_series ''2023'' ''2024'')) (\<lambda>test_data.
     if truthy py test_data
     then then_script (run (say (newline # ''API connection successful! Now trying ATUS series...''))) (\<lambda>_.
          then_script (run (fetch_atus_data py http atus_series_ids ''2023'' ''2024'')) (\<lambda>atus_data.
          if truthy py atus_data
          then then_script (run (parse_atus_response py atus_data)) (\<lambda>df.
               (case df of
                  Some rows \<Rightarrow>
                    if rows \<noteq> []
                    then ([Print (newline # ''ATUS Data Retrieved:''),
                           PrintHead (take 5 rows),
                           ToCsv ''data/atus_api_data.csv'' rows,
                           Print (newline # ''Data saved to data/atus_api_data.csv'')], Inr ())
                    else ([Print (newline # ''No data found in ATUS response'')], Inr ())
                | None \<Rightarrow> ([Print (newline # ''No data found in ATUS response'')], Inr ())))
          else ([Print (newline # ''Failed to fetch ATUS data'')], Inr ())))
     else ([Print (newline # ''API connection test failed'')], Inr ())))"

section \<open>Responses of the documented shape\<close>

text \<open>
  The shape that the BLS API documents and that \<open>parse_response_to_dataframe\<close> reads:
  the status \<open>REQUEST_SUCCEEDED\<close>, a dict \<open>Results\<close> whose \<open>series\<close> is a list of dicts
  with a \<open>seriesID\<close>, an optional dict \<open>catalog\<close> and a list \<open>data\<close>; every item of
  \<open>data\<close> a dict with \<open>year\<close>, \<open>period\<close> and a \<open>value\<close> that is \<open>'-'\<close> or that
  \<open>float\<close> accepts, an optional list \<open>footnotes\<close> of dicts and empty values, and an
  optional dict \<open>calculations\<close>.
\<close>

fun is_dict :: "'f json \<Rightarrow> bool" where
  "is_dict (JObj kvs) = True"
| "is_dict _ = False"

fun is_list_of :: "('f json \<Rightarrow> bool) \<Rightarrow> 'f json \<Rightarrow> bool" where
  "is_list_of P (JArr xs) = list_all P xs"
| "is_list_of P _ = False"

fun has_key :: "'f json \<Rightarrow> string \<Rightarrow> bool" where
  "has_key (JObj kvs) k = (k \<in> set (map fst kvs))"
| "has_key _ k = False"

fun is_ok :: "error + 'a \<Rightarrow> bool" where
  "is_ok (Inr x) = True"
| "is_ok (Inl e) = False"

definition wf_footnote :: "'f builtins \<Rightarrow> 'f json \<Rightarrow> bool" where
  "wf_footnote py f = (\<not> truthy py f \<or> is_dict f)"

definition wf_value :: "'f builtins \<Rightarrow> 'f json \<Rightarrow> bool" where
  "wf_value py v = (v = JStr ''-'' \<or> is_ok (float_conv py v))"

definition wf_item :: "'f builtins \<Rightarrow> 'f json \<Rightarrow> bool" where
  "wf_item py item =
     (is_dict item \<and> has_key item ''year'' \<and> has_key item ''period'' \<and>
      (case subscript item ''value'' of Inr v \<Rightarrow> wf_value py v | Inl e \<Rightarrow> False) \<and>
      (case dict_get item ''footnotes'' (JArr []) of
         Inr fs \<Rightarrow> is_list_of (wf_footnote py) fs | Inl e \<Rightarrow> False) \<and>
      (case dict_get item ''calculations'' (JObj []) of
         Inr c \<Rightarrow> is_dict c | Inl e \<Rightarrow> False))"

definition wf_series :: "'f builtins \<Rightarrow> 'f json \<Rightarrow> bool" where
  "wf_series py series =
     (is_dict series \<and> has_key series ''seriesID'' \<and>
      (case dict_get series ''catalog'' (JObj []) of Inr c \<Rightarrow> is_dict c | Inl e \<Rightarrow> False) \<and>
      (case subscript series ''data'' of Inr d \<Rightarrow> is_list_of (wf_item py) d | Inl e \<Rightarrow> False))"

definition well_formed :: "'f builtins \<Rightarrow> 'f json \<Rightarrow> bool" where
  "well_formed py json_data =
     (dict_get json_data ''status'' JNull = Inr (JStr ''REQUEST_SUCCEEDED'') \<and>
      (case subscript json_data ''Results'' of
         Inr results \<Rightarrow>
           (case subscript results ''series'' of
              Inr ss \<Rightarrow> is_list_of (wf_series py) ss | Inl e \<Rightarrow> False)
       | Inl e \<Rightarrow> False))"

text \<open>The series of a response, and the id and the data items of a series, as the parser reads them.\<close>

definition series_id_of :: "'f json \<Rightarrow> 'f json" where
  "series_id_of series = (case subscript series ''seriesID'' of Inr v \<Rightarrow> v | Inl e \<Rightarrow> JNull)"

definition data_of :: "'f json \<Rightarrow> 'f json list" where
  "data_of series =
     (case bind_err (subscript series ''data'') py_iter of Inr items \<Rightarrow> items | Inl e \<Rightarrow> [])"

definition response_series :: "'f json \<Rightarrow> 'f json list" where
  "response_series json_data =
     (case bind_err (subscript json_data ''Results'') (\<lambda>results.
           bind_err (subscript results ''series'') py_iter) of
        Inr ss \<Rightarrow> ss | Inl e \<Rightarrow> [])"

section \<open>Builtins and inputs for examples\<close>

text \<open>
  An instance of the builtins to run the functions on examples: a float is a decimal
  numeral kept exactly, as its digits and the number of digits after the point, and
  \<open>float\<close> reads the plain numerals \<open>12\<close> and \<open>12.5\<close> only.
\<close>

type_synonym dec = "int \<times> nat"

definition dec_of_string :: "string \<Rightarrow> error + dec" where
  "dec_of_string s =
     (let a = takeWhile is_digit s; r = dropWhile is_digit s
      in if a = [] then Inl ValueError
         else (case r of
                 [] \<Rightarrow> Inr (digits_value a, 0)
               | c # b \<Rightarrow>
                   if c = CHR ''.'' \<and> b \<noteq> [] \<and> list_all is_digit b
                   then Inr (digits_value (a @ b), length b)
                   else Inl ValueError))"

fun dec_float_conv :: "dec json \<Rightarrow> error + dec" where
  "dec_float_conv (JStr s) = dec_of_string s"
| "dec_float_conv (JInt i) = Inr (i, 0)"
| "dec_float_conv (JFloat x) = Inr x"
| "dec_float_conv (JBool b) = Inr (if b then 1 else 0, 0)"
| "dec_float_conv _ = Inl TypeError"

fun dec_format :: "dec json \<Rightarrow> string" where
  "dec_format JNull = ''None''"
| "dec_format (JBool b) = (if b then ''True'' else ''False'')"
| "dec_format (JInt i) = show_int i"
| "dec_format (JFloat x) = show_int (fst x) @ ''e-'' @ show_nat (snd x)"
| "dec_format (JStr s) = s"
| "dec_format (JArr xs) = ''[...]''"
| "dec_format (JObj kvs) = ''{...}''"

definition example_py :: "dec builtins" where
  "example_py =
     \<lparr>float_conv = dec_float_conv,
      float_truthy = (\<lambda>x. fst x \<noteq> 0),
      float_mul_int = (\<lambda>x n. (fst x * n, snd x)),
      format_value = dec_format\<rparr>"

definition example_response :: "dec json" where
  "example_response =
     JObj [(''status'', JStr ''REQUEST_SUCCEEDED''),
           (''Results'', JObj [(''series'',
              JArr [JObj [(''seriesID'', JStr ''TUU10101AA01000000''),
                          (''data'',
                             JArr [JObj [(''year'', JStr ''2024''), (''period'', JStr ''A01''),
                                         (''value'', JStr ''5.07''),
                                         (''footnotes'', JArr [JObj []])],
                                   JObj [(''year'', JStr ''2023''), (''period'', JStr ''A01''),
                                         (''value'', JStr ''-''),
                                         (''footnotes'',
                                            JArr [JObj [(''code'', JStr ''X''),
                                                        (''text'', JStr ''no data'')]])]])],
                    JObj [(''seriesID'', JStr ''TUU10301AA01000000''),
                          (''catalog'', JObj [(''series_title'', JStr ''Watching TV'')]),
                          (''data'',
                             JArr [JObj [(''year'', JStr ''2024''), (''period'', JStr ''A01''),
                                         (''value'', JStr ''2.6''),
                                         (''calculations'', JObj [(''net_changes'', JObj [])])]])]])])]"

definition example_key_stats :: "dec row" where
  "example_key_stats =
     [(''tv_hours'', JFloat (26, 1)), (''gaming_minutes'', JInt 20),
      (''total_leisure_hours'', JFloat (51, 1))]"

definition failing_http :: "dec http" where
  "failing_http = (\<lambda>req. Inl (RequestException ''timed out''))"

definition test_only_http :: "dec http" where
  "test_only_http =
     (\<lambda>req. case req of
        POST url (JObj ((k, JArr ids) # rest)) h \<Rightarrow>
          if ids = [JStr ''CUUR0000SA0'']
          then Inr (JObj [(''status'', JStr ''REQUEST_SUCCEEDED'')])
          else Inl (RequestException ''timed out'')
      | _ \<Rightarrow> Inl (RequestException ''timed out''))"

definition example_atus_response :: "dec json" where
  "example_atus_response =
     JObj [(''status'', JStr ''REQUEST_SUCCEEDED''),
           (''Results'', JObj [(''series'',
              JArr [JObj [(''seriesID'', JStr ''TUU10101AA01000000''),
                          (''data'',
                             JArr [JObj [(''year'', JStr ''2024''), (''period'', JStr ''A01''),
                                         (''value'', JStr ''5.07''),
                                         (''footnotes'', JArr [JObj []])],
                                   JObj [(''year'', JStr ''2023''), (''period'', JStr ''A01''),
                                         (''value'', JStr ''5.15''),
                                         (''footnotes'',
                                            JArr [JObj [(''code'', JStr ''P''),
                                                        (''text'', JStr ''preliminary'')]])]])]])])]"

definition good_http :: "dec http" where
  "good_http = (\<lambda>req. Inr example_atus_response)"

section \<open>What a match of a pattern looks like\<close>

text \<open>
  The texts that an item and a sequence of items stand for, the items inside each group of a
  pattern, and the numerals \<open>\d+\.\d+\<close>. They say what \<open>match_items\<close> can return; the
  scripts do not compute them.
\<close>

fun item_lang :: "item \<Rightarrow> string \<Rightarrow> bool" where
  "item_lang (One c) t = (case t of [x] \<Rightarrow> cls_match c x | _ \<Rightarrow> False)"
| "item_lang (Plus c) t = (t \<noteq> [] \<and> list_all (cls_match c) t)"
| "item_lang Open t = (t = [])"
| "item_lang Close t = (t = [])"
| "item_lang Dollar t = (t = [])"

primrec seq_lang :: "item list \<Rightarrow> string \<Rightarrow> bool" where
  "seq_lang [] t = (t = [])"
| "seq_lang (i # its) t = (\<exists>a b. t = a @ b \<and> item_lang i a \<and> seq_lang its b)"

fun group_items :: "item list \<Rightarrow> item list option \<Rightarrow> item list list" where
  "group_items [] g = []"
| "group_items (Open # r) g = group_items r (Some [])"
| "group_items (Close # r) g = (case g of None \<Rightarrow> [] | Some its \<Rightarrow> its) # group_items r None"
| "group_items (i # r) g = group_items r (map_option (\<lambda>its. its @ [i]) g)"

definition is_decimal :: "string \<Rightarrow> bool" where
  "is_decimal t =
     (let a = takeWhile is_digit t; r = dropWhile is_digit t
      in a \<noteq> [] \<and> (case r of [] \<Rightarrow> False
                      | c # b \<Rightarrow> c = CHR ''.'' \<and> b \<noteq> [] \<and> list_all is_digit b))"

text \<open>What the scripts need of \<open>float\<close>: it reads every numeral \<open>\d+\.\d+\<close>.\<close>

definition float_reads_decimals :: "'f builtins \<Rightarrow> bool" where
  "float_reads_decimals py = (\<forall>t. is_decimal t \<longrightarrow> is_ok (float_conv py (JStr t)))"

text \<open>A row whose \<open>total_minutes\<close> is what its hours and minutes give.\<close>

definition consistent :: "time_row \<Rightarrow> bool" where
  "consistent r = (total_minutes r = hours r * 60 + minutes r)"


definition example_pages :: "string list" where
  "example_pages =
     [''Sleeping ....... 8:45'' @ [newline] @ ''Working .. 7:30'' @ [newline],
      ''Sleeping 9:00'' @ [newline] @ ''Nothing 0:00'' @ [newline] @ '' 12:30'' @ [newline]
        @ ''Eating and drinking.....1:07'']"

section \<open>The keys of the key statistics\<close>

text \<open>
  The six keys that \<open>extract_key_statistics\<close> assigns, each with the pattern whose match
  assigns it, and the two kinds of values.
\<close>

definition hour_keys :: "string list" where
  "hour_keys = [''tv_hours'', ''total_leisure_hours'', ''men_leisure_hours'', ''women_leisure_hours'']"

definition minute_keys :: "string list" where
  "minute_keys = [''gaming_minutes'', ''socializing_minutes'']"

definition pattern_of_key :: "string \<Rightarrow> item list option" where
  "pattern_of_key =
     map_of [(''tv_hours'', tv_pattern),
             (''total_leisure_hours'', leisure_pattern),
             (''gaming_minutes'', gaming_pattern),
             (''socializing_minutes'', social_pattern),
             (''men_leisure_hours'', gender_pattern),
             (''women_leisure_hours'', gender_pattern)]"

fun is_float :: "'f json \<Rightarrow> bool" where
  "is_float (JFloat x) = True"
| "is_float _ = False"

fun is_int :: "'f json \<Rightarrow> bool" where
  "is_int (JInt i) = True"
| "is_int _ = False"

definition stat_typed :: "string \<times> 'f json \<Rightarrow> bool" where
  "stat_typed kv =
     ((fst kv \<in> set hour_keys \<and> is_float (snd kv)) \<or>
      (fst kv \<in> set minute_keys \<and> is_int (snd kv)))"

definition stat_matched :: "string \<Rightarrow> string \<Rightarrow> bool" where
  "stat_matched text k =
     (case pattern_of_key k of None \<Rightarrow> False | Some pattern \<Rightarrow> search pattern text \<noteq> None)"

definition example_summary :: string where
  "example_summary =
     ''Watching TV was the leisure activity that occupied the most time (2.6 hours per day), ''
     @ ''accounting for just over half of all leisure time, on average (5.1 hours per day). ''
     @ ''They spent 35 minutes socializing and communicating.''"

definition example_table :: "string list" where
  "example_table =
     [''Table 11A. Time spent in leisure and sports activities 5.1'',
      ''Men .......... 5.5 0.4 0.6 2.9 0.2 0.4 0.6 0.4'',
      ''Women ........ 4.7 0.2 0.6 2.4 0.3'',
      ''15 to 19 years 5.3 0.6 0.7 1.8 0.1 0.2 1.3'',
      ''Weekdays 4.6 0.3 0.5 2.5 0.3 0.3 0.5 0.2'']"

text \<open>Every entry of the right kind, under a key whose pattern matched.\<close>

definition stats_ok :: "string \<Rightarrow> 'f row \<Rightarrow> bool" where
  "stats_ok text ks = (\<forall>kv \<in> set ks. stat_typed kv \<and> stat_matched text (fst kv))"

section \<open>Properties of the API client\<close>

lemma bind_err_Inr_iff:
  "bind_err m f = Inr y \<longleftrightarrow> (\<exists>x. m = Inr x \<and> f x = Inr y)"
  by (cases m) (simp_all add: bind_err_def)

lemma bind_err_simps [simp]:
  "bind_err (Inr x) f = f x" "bind_err (Inl e) f = Inl e"
  by (simp_all add: bind_err_def)

lemma map_of_add_calculations:
  "\<not> (\<exists>t. k = ''calc_'' @ t) \<Longrightarrow> map_of (add_calculations calcs row) k = map_of row k"
proof (induction calcs arbitrary: row)
  case Nil
  then show ?case by simp
next
  case (Cons c calcs)
  obtain t v where c: "c = (t, v)" by (cases c)
  from Cons.prems have "k \<noteq> ''calc_'' @ t" by blast
  with Cons c show ?case by (simp add: update_conv')
qed

lemma make_row_fields:
  assumes "make_row py sid cat item = Inr row"
  shows "map_of row ''series_id'' = Some sid"
    and "\<exists>val. observation_value py item = Inr val \<and> map_of row ''value'' = Some val"
  using assms
  by (auto simp: make_row_def bind_err_Inr_iff map_of_add_calculations update_conv')

lemma item_rows_length:
  "item_rows py sid cat items = Inr rows \<Longrightarrow>
     length rows = length items \<and> (\<forall>r \<in> set rows. map_of r ''series_id'' = Some sid)"
proof (induction items arbitrary: rows)
  case Nil
  then show ?case by simp
next
  case (Cons item items)
  then show ?case
    by (auto simp: bind_err_Inr_iff dest: make_row_fields(1))
qed

lemma series_rows_shape:
  assumes "series_rows py s = Inr rows"
  shows "map (\<lambda>r. map_of r ''series_id'') rows = replicate (length (data_of s)) (Some (series_id_of s))"
proof -
  from assms obtain sid cat d items where
    h: "subscript s ''seriesID'' = Inr sid" "subscript s ''data'' = Inr d" "py_iter d = Inr items"
       "item_rows py sid cat items = Inr rows"
    by (auto simp: series_rows_def bind_err_Inr_iff)
  from item_rows_length[OF h(4)] have "length rows = length items"
    "\<forall>r \<in> set rows. map_of r ''series_id'' = Some sid" by auto
  moreover have "data_of s = items" "series_id_of s = sid" using h by (simp_all add: data_of_def series_id_of_def)
  ultimately show ?thesis
    by (simp add: map_replicate_const[symmetric] cong: map_cong)
      (metis (mono_tags, lifting) map_eq_conv map_replicate_const)
qed

lemma all_rows_shape:
  "all_rows py ss = Inr rows \<Longrightarrow>
     map (\<lambda>r. map_of r ''series_id'') rows =
       concat (map (\<lambda>s. replicate (length (data_of s)) (Some (series_id_of s))) ss)"
proof (induction ss arbitrary: rows)
  case Nil
  then show ?case by simp
next
  case (Cons s ss)
  then show ?case by (auto simp: bind_err_Inr_iff dest: series_rows_shape)
qed


lemma has_key_subscript:
  assumes "has_key j k"
  shows "\<exists>v. subscript j k = Inr v"
proof -
  from assms obtain kvs where j: "j = JObj kvs" by (cases j) auto
  with assms have "map_of kvs k \<noteq> None" by (simp add: map_of_eq_None_iff)
  then obtain v where "map_of kvs k = Some v" by blast
  with j show ?thesis by simp
qed

lemma footnote_texts_total:
  "list_all (wf_footnote py) fs \<Longrightarrow> \<exists>ts. footnote_texts py fs = Inr ts"
proof (induction fs)
  case Nil
  then show ?case by simp
next
  case (Cons f fs)
  then obtain ts where ts: "footnote_texts py fs = Inr ts" by auto
  show ?case
  proof (cases "truthy py f")
    case True
    with Cons.prems obtain kvs where "f = JObj kvs"
      by (cases f) (auto simp: wf_footnote_def)
    with True ts show ?thesis by simp
  next
    case False
    with ts show ?thesis by simp
  qed
qed

lemma observation_value_total:
  assumes "subscript item ''value'' = Inr v" "wf_value py v"
  shows "\<exists>val. observation_value py item = Inr val"
proof (cases "v = JStr ''-''")
  case True
  with assms show ?thesis by (simp add: observation_value_def)
next
  case False
  with assms obtain x where "float_conv py v = Inr x"
    by (cases "float_conv py v") (auto simp: wf_value_def)
  with assms False show ?thesis by (simp add: observation_value_def)
qed

lemma make_row_total:
  assumes "wf_item py item" "is_dict cat"
  shows "\<exists>row. make_row py sid cat item = Inr row"
proof -
  from assms(2) obtain ckvs where cat: "cat = JObj ckvs" by (cases cat) auto
  from assms(1) obtain kvs where item: "item = JObj kvs" by (cases item) (auto simp: wf_item_def)
  from assms(1) have "has_key item ''year''" "has_key item ''period''"
    by (simp_all add: wf_item_def)
  then obtain y p where
    y: "subscript item ''year'' = Inr y" and p: "subscript item ''period'' = Inr p"
    by (blast dest: has_key_subscript)
  from assms(1) obtain v where v: "subscript item ''value'' = Inr v" "wf_value py v"
    by (cases "subscript item ''value''") (simp_all add: wf_item_def)
  from observation_value_total[OF v] obtain val where val: "observation_value py item = Inr val" ..
  from assms(1) item obtain fl where
    fl: "dict_get item ''footnotes'' (JArr []) = Inr (JArr fl)" "list_all (wf_footnote py) fl"
    by (auto simp: wf_item_def split: sum.splits elim: is_list_of.elims)
  from footnote_texts_total[OF fl(2)] obtain ts where ts: "footnote_texts py fl = Inr ts" ..
  have calc: "\<exists>calcs. (if k \<in> set (map fst kvs)
               then bind_err (subscript item ''calculations'') dict_items
               else Inr []) = Inr calcs" if "k = ''calculations''" for k
  proof (cases "map_of kvs ''calculations''")
    case None
    then show ?thesis using that by (simp add: map_of_eq_None_iff)
  next
    case (Some c)
    with assms(1) item obtain ckv where "c = JObj ckv"
      by (cases c) (auto simp: wf_item_def)
    with Some item show ?thesis by simp
  qed
  then obtain calcs where calcs: "(if ''calculations'' \<in> set (map fst kvs)
               then bind_err (subscript item ''calculations'') dict_items
               else Inr []) = Inr calcs" by blast
  show ?thesis
    unfolding make_row_def using y p val ts calcs fl(1)
    by (simp add: cat item)
qed

lemma item_rows_total:
  "list_all (wf_item py) items \<Longrightarrow> is_dict cat \<Longrightarrow> \<exists>rows. item_rows py sid cat items = Inr rows"
proof (induction items)
  case Nil
  then show ?case by simp
next
  case (Cons item items)
  then obtain rows where "item_rows py sid cat items = Inr rows" by auto
  moreover from Cons.prems make_row_total[of py item cat sid]
  obtain row where "make_row py sid cat item = Inr row" by auto
  ultimately show ?case by simp
qed

lemma series_rows_total:
  assumes "wf_series py s"
  shows "\<exists>rows. series_rows py s = Inr rows"
proof -
  from assms obtain kvs where s: "s = JObj kvs" by (cases s) (auto simp: wf_series_def)
  from assms have "has_key s ''seriesID''" by (simp add: wf_series_def)
  then obtain sid where sid: "subscript s ''seriesID'' = Inr sid"
    by (blast dest: has_key_subscript)
  from assms s obtain cat where cat: "dict_get s ''catalog'' (JObj []) = Inr cat" "is_dict cat"
    by (auto simp: wf_series_def split: sum.splits)
  from assms s obtain items where d: "subscript s ''data'' = Inr (JArr items)" "list_all (wf_item py) items"
    by (auto simp: wf_series_def split: sum.splits elim: is_list_of.elims)
  from item_rows_total[OF d(2) cat(2)] obtain rows where "item_rows py sid cat items = Inr rows" ..
  with sid cat d show ?thesis by (simp add: series_rows_def)
qed

lemma all_rows_total:
  "list_all (wf_series py) ss \<Longrightarrow> \<exists>rows. all_rows py ss = Inr rows"
proof (induction ss)
  case Nil
  then show ?case by simp
next
  case (Cons s ss)
  then obtain more where "all_rows py ss = Inr more" by auto
  moreover from Cons.prems series_rows_total[of py s]
  obtain rows where "series_rows py s = Inr rows" by auto
  ultimately show ?case by simp
qed

lemma well_formed_truthy:
  assumes "well_formed py j"
  shows "truthy py j"
proof -
  from assms obtain kvs where j: "j = JObj kvs" by (cases j) (auto simp: well_formed_def)
  with assms have "kvs \<noteq> []" by (auto simp: well_formed_def)
  with j show ?thesis by simp
qed

lemma parse_well_formed:
  assumes "well_formed py j"
  shows "\<exists>rows. parse_response_to_dataframe py j = ([], Inr (Some rows)) \<and>
           all_rows py (response_series j) = Inr rows"
proof -
  from assms obtain results ss where
    r: "subscript j ''Results'' = Inr results" "subscript results ''series'' = Inr (JArr ss)"
       "list_all (wf_series py) ss"
    by (auto simp: well_formed_def split: sum.splits elim: is_list_of.elims)
  from all_rows_total[OF r(3)] obtain rows where rows: "all_rows py ss = Inr rows" ..
  from assms have st: "dict_get j ''status'' JNull = Inr (JStr ''REQUEST_SUCCEEDED'')"
    by (simp add: well_formed_def)
  have "response_series j = ss" using r by (simp add: response_series_def)
  with well_formed_truthy[OF assms] st r rows show ?thesis
    by (simp add: parse_response_to_dataframe_def)
qed

text \<open>
  C3. For a response of the documented shape \<open>parse_response_to_dataframe\<close> returns a
  DataFrame with one row for each data item of each series: the number of rows is the sum
  of the lengths of the \<open>data\<close> lists, and the \<open>series_id\<close> fields are, in order, the
  \<open>seriesID\<close> of each series, once for each of its items.
\<close>

theorem one_row_per_series_observation:
  assumes "well_formed py json_data"
  shows "\<exists>rows. snd (parse_response_to_dataframe py json_data) = Inr (Some rows) \<and>
           length rows = sum_list (map (\<lambda>s. length (data_of s)) (response_series json_data)) \<and>
           map (\<lambda>r. map_of r ''series_id'') rows =
             concat (map (\<lambda>s. replicate (length (data_of s)) (Some (series_id_of s)))
                       (response_series json_data))"
proof -
  from parse_well_formed[OF assms] obtain rows where
    rows: "parse_response_to_dataframe py json_data = ([], Inr (Some rows))"
      "all_rows py (response_series json_data) = Inr rows" by blast
  let ?f = "\<lambda>s. replicate (length (data_of s)) (Some (series_id_of s))"
  have shape: "map (\<lambda>r. map_of r ''series_id'') rows = concat (map ?f (response_series json_data))"
    by (rule all_rows_shape[OF rows(2)])
  have "length rows = length (map (\<lambda>r. map_of r ''series_id'') rows)" by simp
  also have "\<dots> = sum_list (map (\<lambda>s. length (data_of s)) (response_series json_data))"
    unfolding shape by (simp add: length_concat comp_def)
  finally show ?thesis using rows(1) shape by simp
qed


theorem one_row_per_series_observation_witness:
  "well_formed example_py example_response \<and>
   (\<exists>rows. snd (parse_response_to_dataframe example_py example_response) = Inr (Some rows) \<and>
      length rows = 3 \<and>
      map (\<lambda>r. map_of r ''series_id'') rows =
        [Some (JStr ''TUU10101AA01000000''), Some (JStr ''TUU10101AA01000000''),
         Some (JStr ''TUU10301AA01000000'')])"
proof -
  have wf: "well_formed example_py example_response"
    by code_simp
  have ser: "map (\<lambda>s. (series_id_of s, length (data_of s))) (response_series example_response) =
     [(JStr ''TUU10101AA01000000'', 2), (JStr ''TUU10301AA01000000'', 1)]"
    by code_simp
  then obtain s1 s2 where s: "response_series example_response = [s1, s2]"
    "series_id_of s1 = JStr ''TUU10101AA01000000''" "length (data_of s1) = 2"
    "series_id_of s2 = JStr ''TUU10301AA01000000''" "length (data_of s2) = 1"
    by auto
  from one_row_per_series_observation [OF wf] s wf show ?thesis
    by (auto simp: numeral_2_eq_2 numeral_3_eq_3)
qed

lemma item_rows_make_row:
  "item_rows py sid cat items = Inr rows \<Longrightarrow>
     list_all2 (\<lambda>row item. make_row py sid cat item = Inr row) rows items"
proof (induction items arbitrary: rows)
  case Nil
  then show ?case by simp
next
  case (Cons item items)
  then show ?case by (auto simp: bind_err_Inr_iff)
qed

lemma series_rows_make_row:
  assumes "series_rows py s = Inr rows"
  shows "list_all2 (\<lambda>row item. \<exists>sid cat. make_row py sid cat item = Inr row) rows (data_of s)"
proof -
  from assms obtain sid cat d items where
    h: "subscript s ''data'' = Inr d" "py_iter d = Inr items"
       "item_rows py sid cat items = Inr rows"
    by (auto simp: series_rows_def bind_err_Inr_iff)
  have "data_of s = items" using h by (simp add: data_of_def)
  with item_rows_make_row[OF h(3)]
  have "list_all2 (\<lambda>row item. make_row py sid cat item = Inr row) rows (data_of s)" by simp
  then show ?thesis
    by (rule list_all2_mono) blast
qed

lemma all_rows_make_row:
  "all_rows py ss = Inr rows \<Longrightarrow>
     list_all2 (\<lambda>row item. \<exists>sid cat. make_row py sid cat item = Inr row) rows
       (concat (map data_of ss))"
proof (induction ss arbitrary: rows)
  case Nil
  then show ?case by simp
next
  case (Cons s ss)
  then show ?case
    by (auto simp: bind_err_Inr_iff intro!: list_all2_appendI dest: series_rows_make_row)
qed

lemma parse_rows_all_rows:
  assumes "snd (parse_response_to_dataframe py j) = Inr (Some rows)"
  shows "all_rows py (response_series j) = Inr rows"
  using assms
  by (auto simp: parse_response_to_dataframe_def response_series_def bind_err_Inr_iff
           split: sum.splits bool.splits if_splits)

lemma make_row_value:
  assumes "make_row py sid cat item = Inr row"
  shows "(map_of row ''value'' = Some JNull \<longleftrightarrow> subscript item ''value'' = Inr (JStr ''-'')) \<and>
         (\<forall>v. subscript item ''value'' = Inr v \<and> v \<noteq> JStr ''-'' \<longrightarrow>
            (\<exists>x. float_conv py v = Inr x \<and> map_of row ''value'' = Some (JFloat x)))"
proof -
  from make_row_fields(2)[OF assms] obtain val where
    val: "observation_value py item = Inr val" "map_of row ''value'' = Some val" by blast
  from val(1) obtain v where v: "subscript item ''value'' = Inr v"
    by (auto simp: observation_value_def bind_err_Inr_iff)
  show ?thesis
  proof (cases "v = JStr ''-''")
    case True
    with v val show ?thesis by (simp add: observation_value_def)
  next
    case False
    with v val show ?thesis by (auto simp: observation_value_def bind_err_Inr_iff)
  qed
qed

text \<open>
  C9. An item whose \<open>value\<close> is the marker \<open>'-'\<close> gets the value \<open>None\<close> without
  \<open>float\<close> being called, so whatever \<open>float\<close> does on \<open>'-'\<close>. In a DataFrame that
  \<open>parse_response_to_dataframe\<close> returns the rows stand for the data items in order, the
  \<open>value\<close> of a row is \<open>None\<close> exactly when the item's raw \<open>value\<close> is \<open>'-'\<close>, and is
  the float conversion of the raw value otherwise.
\<close>

theorem missing_value_marker:
  "(subscript item ''value'' = Inr (JStr ''-'') \<longrightarrow> observation_value py item = Inr JNull) \<and>
   (snd (parse_response_to_dataframe py json_data) = Inr (Some rows) \<longrightarrow>
      list_all2
        (\<lambda>row item.
           (map_of row ''value'' = Some JNull \<longleftrightarrow> subscript item ''value'' = Inr (JStr ''-'')) \<and>
           (\<forall>v. subscript item ''value'' = Inr v \<and> v \<noteq> JStr ''-'' \<longrightarrow>
              (\<exists>x. float_conv py v = Inr x \<and> map_of row ''value'' = Some (JFloat x))))
        rows (concat (map data_of (response_series json_data))))"
proof (intro conjI impI)
  assume "subscript item ''value'' = Inr (JStr ''-'')"
  then show "observation_value py item = Inr JNull"
    by (simp add: observation_value_def)
next
  assume "snd (parse_response_to_dataframe py json_data) = Inr (Some rows)"
  then have "all_rows py (response_series json_data) = Inr rows"
    by (rule parse_rows_all_rows)
  then have "list_all2 (\<lambda>row item. \<exists>sid cat. make_row py sid cat item = Inr row) rows
       (concat (map data_of (response_series json_data)))"
    by (rule all_rows_make_row)
  then show "list_all2
        (\<lambda>row item.
           (map_of row ''value'' = Some JNull \<longleftrightarrow> subscript item ''value'' = Inr (JStr ''-'')) \<and>
           (\<forall>v. subscript item ''value'' = Inr v \<and> v \<noteq> JStr ''-'' \<longrightarrow>
              (\<exists>x. float_conv py v = Inr x \<and> map_of row ''value'' = Some (JFloat x))))
        rows (concat (map data_of (response_series json_data)))"
    by (rule list_all2_mono) (blast dest: make_row_value)
qed

theorem missing_value_marker_witness:
  "observation_value example_py (JObj [(''value'', JStr ''-'')]) = Inr JNull \<and>
   (\<exists>rows. snd (parse_response_to_dataframe example_py example_response) = Inr (Some rows) \<and>
      length rows = length (concat (map data_of (response_series example_response))) \<and>
      map (\<lambda>r. map_of r ''value'') rows = [Some (JFloat (507, 2)), Some JNull, Some (JFloat (26, 1))])"
proof -
  let ?rows = "case snd (parse_response_to_dataframe example_py example_response) of
                  Inr (Some rows) \<Rightarrow> rows | _ \<Rightarrow> []"
  have p: "snd (parse_response_to_dataframe example_py example_response) = Inr (Some ?rows)"
    by code_simp
  have v: "map (\<lambda>r. map_of r ''value'') ?rows =
           [Some (JFloat (507, 2)), Some JNull, Some (JFloat (26, 1))]"
    by code_simp
  have s: "subscript (JObj [(''value'', JStr ''-'')] :: dec json) ''value'' = Inr (JStr ''-'')"
    by simp
  note m = missing_value_marker [where py = example_py and item = "JObj [(''value'', JStr ''-'')]"
         and json_data = example_response and rows = ?rows]
  from m s have a: "observation_value example_py (JObj [(''value'', JStr ''-'')]) = Inr JNull"
    by simp
  from m p have "list_all2
        (\<lambda>row item.
           (map_of row ''value'' = Some JNull \<longleftrightarrow> subscript item ''value'' = Inr (JStr ''-'')) \<and>
           (\<forall>v. subscript item ''value'' = Inr v \<and> v \<noteq> JStr ''-'' \<longrightarrow>
              (\<exists>x. float_conv example_py v = Inr x \<and> map_of row ''value'' = Some (JFloat x))))
        ?rows (concat (map data_of (response_series example_response)))"
    by (rule conjunct2 [THEN mp])
  then have l: "length ?rows = length (concat (map data_of (response_series example_response)))"
    by (rule list_all2_lengthD)
  from a p v l show ?thesis
    by (intro conjI exI [where x = ?rows])
qed


lemma parse_response_None_raises:
  "parse_response_to_dataframe py JNull = ([], Inl AttributeError)"
  by (simp add: parse_response_to_dataframe_def)





text \<open>
  C2. \<open>get_latest_series\<close> chooses the request by the length of \<open>series_ids\<close>: for a
  list of length one a GET of \<open>base_url/timeseries/data/<id>\<close> with \<open>latest=true\<close> and the
  registration key in the query, for every other length (the empty list too) a POST to
  \<open>base_url/timeseries/data/\<close> whose payload holds \<open>seriesid\<close>, \<open>latest = True\<close> and
  \<open>registrationkey\<close>. It is the only request, and its decoded answer is the result.
\<close>

theorem get_latest_series_dispatch:
  "(length series_ids = 1 \<longrightarrow>
      (latest_request api_key series_ids :: 'f request) =
        GET (base_url @ ''/timeseries/data/'' @ series_ids ! 0
             @ ''?latest=true&registrationkey='' @ api_key)) \<and>
   (length series_ids \<noteq> 1 \<longrightarrow>
      (latest_request api_key series_ids :: 'f request) =
        POST (base_url @ ''/timeseries/data/'')
          (JObj [(''seriesid'', JArr (map JStr series_ids)), (''latest'', JBool True),
                 (''registrationkey'', JStr api_key)])
          headers) \<and>
   (\<forall>j. (http :: 'f http) (latest_request api_key series_ids) = Inr j \<longrightarrow>
      get_latest_series http api_key series_ids = ([], Inr j))"
  by (cases series_ids) (simp_all add: latest_request_def get_latest_series_def guarded_call_def)

theorem get_latest_series_dispatch_witness:
  "(latest_request ''key'' [''TUU10101AA01000000''] :: dec request) =
     GET ''https://api.bls.gov/publicAPI/v2/timeseries/data/TUU10101AA01000000?latest=true&registrationkey=key'' \<and>
   (latest_request ''key'' [] :: dec request) =
     POST ''https://api.bls.gov/publicAPI/v2/timeseries/data/''
       (JObj [(''seriesid'', JArr []), (''latest'', JBool True), (''registrationkey'', JStr ''key'')])
       headers \<and>
   get_latest_series (\<lambda>r. Inr (JInt 7) :: error + dec json) ''key'' [''a'', ''b''] = ([], Inr (JInt 7))"
  using get_latest_series_dispatch [where series_ids = "[''TUU10101AA01000000'']" and api_key = "''key''"
          and http = "\<lambda>r. Inr (JInt 7) :: error + dec json"]
        get_latest_series_dispatch [where series_ids = "[]" and api_key = "''key''"
          and http = "\<lambda>r. Inr (JInt 7) :: error + dec json"]
        get_latest_series_dispatch [where series_ids = "[''a'', ''b'']" and api_key = "''key''"
          and http = "\<lambda>r. Inr (JInt 7) :: error + dec json"]
  by (simp add: base_url_def)

section \<open>Properties of the PDF scripts\<close>

lemma keys_update: "fst ` set ks \<subseteq> fst ` set (AList.update k v ks)"
  unfolding dom_update by blast

lemma add_minutes_frame:
  assumes "add_minutes py src dst ks = Inr ks'"
  shows "\<And>k. k \<noteq> dst \<Longrightarrow> map_of ks' k = map_of ks k"
    and "set (map fst ks) \<subseteq> set (map fst ks')"
    and "case map_of ks src of
           None \<Rightarrow> ks' = ks
         | Some h \<Rightarrow> (\<exists>m. py_mul_int py h 60 = Inr m \<and> map_of ks' dst = Some m)"
proof -
  show "\<And>k. k \<noteq> dst \<Longrightarrow> map_of ks' k = map_of ks k"
    using assms
    by (auto simp: add_minutes_def bind_err_Inr_iff update_conv' split: option.splits)
  have "fst ` set ks \<subseteq> fst ` set ks'"
  proof (cases "map_of ks src")
    case None
    with assms have "ks' = ks" by (simp add: add_minutes_def)
    then show ?thesis by simp
  next
    case (Some h)
    with assms obtain m where "ks' = AList.update dst m ks"
      by (auto simp: add_minutes_def bind_err_Inr_iff)
    then show ?thesis by (simp only: keys_update)
  qed
  then show "set (map fst ks) \<subseteq> set (map fst ks')" by simp
  show "case map_of ks src of
           None \<Rightarrow> ks' = ks
         | Some h \<Rightarrow> (\<exists>m. py_mul_int py h 60 = Inr m \<and> map_of ks' dst = Some m)"
    using assms
    by (auto simp: add_minutes_def bind_err_Inr_iff update_conv' split: option.splits)
qed

lemma add_minutes_float:
  assumes "\<forall>v. map_of ks src = Some v \<longrightarrow> (\<exists>x. v = JFloat x)"
  shows "\<exists>ks'. add_minutes py src dst ks = Inr ks'"
  using assms by (auto simp: add_minutes_def split: option.splits)

text \<open>
  C7. \<open>process_and_save_data\<close> changes \<open>key_stats\<close> at the keys \<open>tv_minutes\<close> and
  \<open>total_leisure_minutes\<close> only: every other key keeps its value and no key is removed,
  also when the function raises. When it returns, \<open>tv_minutes\<close> is \<open>tv_hours * 60\<close> if
  \<open>tv_hours\<close> is present and as before if not, and likewise \<open>total_leisure_minutes\<close>. It
  returns whenever the two hour values, where present, are floats, as the extractor stores
  them.
\<close>

theorem process_and_save_data_frame:
  "(\<forall>k. k \<noteq> ''tv_minutes'' \<and> k \<noteq> ''total_leisure_minutes'' \<longrightarrow>
        map_of (fst (process_and_save_data py key_stats)) k = map_of key_stats k) \<and>
   set (map fst key_stats) \<subseteq> set (map fst (fst (process_and_save_data py key_stats))) \<and>
   (snd (process_and_save_data py key_stats) = None \<longrightarrow>
      (case map_of key_stats ''tv_hours'' of
         None \<Rightarrow> map_of (fst (process_and_save_data py key_stats)) ''tv_minutes''
                  = map_of key_stats ''tv_minutes''
       | Some h \<Rightarrow> (\<exists>m. py_mul_int py h 60 = Inr m \<and>
                      map_of (fst (process_and_save_data py key_stats)) ''tv_minutes'' = Some m)) \<and>
      (case map_of key_stats ''total_leisure_hours'' of
         None \<Rightarrow> map_of (fst (process_and_save_data py key_stats)) ''total_leisure_minutes''
                  = map_of key_stats ''total_leisure_minutes''
       | Some h \<Rightarrow> (\<exists>m. py_mul_int py h 60 = Inr m \<and>
                      map_of (fst (process_and_save_data py key_stats)) ''total_leisure_minutes''
                        = Some m))) \<and>
   ((\<forall>k v. k \<in> {''tv_hours'', ''total_leisure_hours''} \<and> map_of key_stats k = Some v
        \<longrightarrow> (\<exists>x. v = JFloat x)) \<longrightarrow>
      snd (process_and_save_data py key_stats) = None)"
proof (cases "add_minutes py ''tv_hours'' ''tv_minutes'' key_stats")
  case (Inl e)
  then have "\<exists>h. map_of key_stats ''tv_hours'' = Some h \<and> (\<forall>x. h \<noteq> JFloat x)"
    by (auto simp: add_minutes_def split: option.splits)
  with Inl show ?thesis by (auto simp: process_and_save_data_def)
next
  case s1: (Inr s1)
  note f1 = add_minutes_frame [OF s1]
  show ?thesis
  proof (cases "add_minutes py ''total_leisure_hours'' ''total_leisure_minutes'' s1")
    case (Inl e)
    then have "\<exists>h. map_of s1 ''total_leisure_hours'' = Some h \<and> (\<forall>x. h \<noteq> JFloat x)"
      by (auto simp: add_minutes_def split: option.splits)
    then have "\<exists>h. map_of key_stats ''total_leisure_hours'' = Some h \<and> (\<forall>x. h \<noteq> JFloat x)"
      using f1(1) [of "''total_leisure_hours''"] by simp
    with s1 Inl f1 show ?thesis by (auto simp: process_and_save_data_def)
  next
    case s2: (Inr s2)
    note f2 = add_minutes_frame [OF s2]
    have res: "process_and_save_data py key_stats = (s2, None)"
      using s1 s2 by (simp add: process_and_save_data_def)
    have frame: "map_of s2 k = map_of key_stats k"
      if "k \<noteq> ''tv_minutes''" "k \<noteq> ''total_leisure_minutes''" for k
      using that f1(1) [of k] f2(1) [of k] by simp
    have keys: "set (map fst key_stats) \<subseteq> set (map fst s2)"
      using f1(2) f2(2) by blast
    have tv: "case map_of key_stats ''tv_hours'' of
         None \<Rightarrow> map_of s2 ''tv_minutes'' = map_of key_stats ''tv_minutes''
       | Some h \<Rightarrow> (\<exists>m. py_mul_int py h 60 = Inr m \<and> map_of s2 ''tv_minutes'' = Some m)"
      using f1(3) f2(1) [of "''tv_minutes''"] by (auto split: option.splits)
    have tl: "case map_of key_stats ''total_leisure_hours'' of
         None \<Rightarrow> map_of s2 ''total_leisure_minutes'' = map_of key_stats ''total_leisure_minutes''
       | Some h \<Rightarrow> (\<exists>m. py_mul_int py h 60 = Inr m \<and> map_of s2 ''total_leisure_minutes'' = Some m)"
      using f2(3) f1(1) [of "''total_leisure_hours''"] f1(1) [of "''total_leisure_minutes''"]
      by (auto split: option.splits)
    from frame keys tv tl show ?thesis unfolding res fst_conv snd_conv by simp
  qed
qed

lemma split_char_nonempty: "split_char sep s \<noteq> []"
  by (induction s) (auto split: list.splits)

lemma time_value_lines_unbound:
  "lines \<noteq> [] \<Longrightarrow> time_value_lines False lines = ([], Some NameError)"
  by (cases lines) simp_all

lemma examine_page_unbound:
  "snd (examine_page False page_num text) = Some NameError"
  by (simp add: examine_page_def Let_def time_value_lines_unbound split_char_nonempty)

lemma doc_page_in_range:
  "doc \<noteq> [] \<Longrightarrow> i < int (length doc) \<Longrightarrow> \<exists>text. doc_page doc i = Inr text"
  by (simp add: doc_page_def)

text \<open>
  C10. Called from an importer of the module, where the global \<open>re\<close> is unbound,
  \<open>examine_page_with_data\<close> raises \<open>NameError\<close> as soon as the page numbers hold one that
  lies within the document.
\<close>

theorem examine_page_with_data_NameError:
  assumes "\<not> re_bound" and "p \<in> set page_numbers" and "1 \<le> p" and "p \<le> int (length doc)"
  shows "snd (examine_page_with_data re_bound doc page_numbers) = Some NameError"
proof -
  from assms(3,4) have ne: "doc \<noteq> []" by auto
  have "\<exists>q \<in> set pns. q \<le> int (length doc) \<Longrightarrow>
        snd (examine_page_with_data False doc pns) = Some NameError" for pns
  proof (induction pns)
    case Nil
    then show ?case by simp
  next
    case (Cons q pns)
    show ?case
    proof (cases "q \<le> int (length doc)")
      case True
      with ne obtain body where t: "doc_page doc (q - 1) = Inr body"
        using doc_page_in_range [of doc "q - 1"] by auto
      obtain out where "examine_page False q body = (out, Some NameError)"
        using examine_page_unbound [of q body] by (cases "examine_page False q body") auto
      with True t show ?thesis by simp
    next
      case False
      with Cons show ?thesis by auto
    qed
  qed
  with assms show ?thesis by auto
qed


theorem process_and_save_data_frame_witness:
  "map_of (fst (process_and_save_data example_py example_key_stats)) ''gaming_minutes'' = Some (JInt 20) \<and>
   map_of (fst (process_and_save_data example_py example_key_stats)) ''tv_hours'' = Some (JFloat (26, 1)) \<and>
   map_of (fst (process_and_save_data example_py example_key_stats)) ''tv_minutes'' = Some (JFloat (1560, 1)) \<and>
   map_of (fst (process_and_save_data example_py example_key_stats)) ''total_leisure_minutes''
     = Some (JFloat (3060, 1)) \<and>
   snd (process_and_save_data example_py example_key_stats) = None"
proof -
  have k: "map_of example_key_stats ''gaming_minutes'' = Some (JInt 20)"
       "map_of example_key_stats ''tv_hours'' = Some (JFloat (26, 1))"
       "map_of example_key_stats ''total_leisure_hours'' = Some (JFloat (51, 1))"
    by (simp_all add: example_key_stats_def)
  have m: "py_mul_int example_py (JFloat (26, 1)) 60 = Inr (JFloat (1560, 1))"
          "py_mul_int example_py (JFloat (51, 1)) 60 = Inr (JFloat (3060, 1))"
    by (simp_all add: example_py_def)
  have fl: "\<forall>k v. k \<in> {''tv_hours'', ''total_leisure_hours''} \<and> map_of example_key_stats k = Some v
        \<longrightarrow> (\<exists>x. v = JFloat x)"
    by (auto simp: example_key_stats_def)
  note t = process_and_save_data_frame [of example_py example_key_stats]
  from t fl have n: "snd (process_and_save_data example_py example_key_stats) = None"
    by blast
  from t have f: "\<And>k. k \<noteq> ''tv_minutes'' \<Longrightarrow> k \<noteq> ''total_leisure_minutes'' \<Longrightarrow>
      map_of (fst (process_and_save_data example_py example_key_stats)) k = map_of example_key_stats k"
    by blast
  from t n k m show ?thesis
    by (simp add: f)
qed

theorem examine_page_with_data_NameError_witness:
  "snd (examine_page_with_data False [''Page one'', ''Leisure 5:07''] [1, 2, 23, 24]) = Some NameError"
  using examine_page_with_data_NameError
          [of False 2 "[1, 2, 23, 24]" "[''Page one'', ''Leisure 5:07'']"]
  by simp

lemma examine_script_run:
  "examine_page_with_data True [''Leisure 5:07''] [1, 2] =
     ([newline # replicate 80 CHR ''='', ''PAGE 1 - First 2000 characters:'', replicate 80 CHR ''='',
       ''Leisure 5:07'', newline # ''--- Lines with time values (HH:MM format) on page 1 ---'',
       ''  > Leisure 5:07'',
       newline # ''--- Lines with gaming/TV/leisure mentions on page 1 ---'',
       ''  > Leisure 5:07''], None)"
  by code_simp

section \<open>Properties of the first API script\<close>

lemma and_then_simps [simp]:
  "and_then (out, Inl e) f = (out, Inl e)"
  "and_then (out, Inr x) f = (out @ fst (f x), snd (f x))"
  by (simp_all add: and_then_def split: prod.splits)

lemma then_script_simps [simp]:
  "then_script (evs, Inl e) f = (evs, Inl e)"
  "then_script (evs, Inr x) f = (evs @ fst (f x), snd (f x))"
  by (simp_all add: then_script_def split: prod.splits)

lemma parse_atus_response_None:
  "parse_atus_response py JNull = ([], Inr None)"
  by (simp add: parse_atus_response_def quiet_def)

lemma parse_atus_response_no_Results:
  "''Results'' \<notin> set (map fst kvs) \<Longrightarrow> parse_atus_response py (JObj kvs) = ([], Inr None)"
  by (simp add: parse_atus_response_def quiet_def)

lemma script_test_failed:
  assumes "fetch_atus_data py http test_series ''2023'' ''2024'' = (out, Inr JNull)"
  shows "fetch_atus_api_script py http =
     (Print ''Testing BLS API connection...'' # map Print out
        @ [Print (newline # ''API connection test failed'')], Inr ())"
  using assms by (simp add: fetch_atus_api_script_def run_def say_def)

lemma script_fetch_failed:
  assumes "fetch_atus_data py http test_series ''2023'' ''2024'' = (out1, Inr t)" "truthy py t"
    and "fetch_atus_data py http atus_series_ids ''2023'' ''2024'' = (out2, Inr JNull)"
  shows "fetch_atus_api_script py http =
     (Print ''Testing BLS API connection...'' # map Print out1
        @ Print (newline # ''API connection successful! Now trying ATUS series...'') # map Print out2
        @ [Print (newline # ''Failed to fetch ATUS data'')], Inr ())"
  using assms by (simp add: fetch_atus_api_script_def run_def say_def)

lemma script_csv_only_after_fetch:
  assumes "ToCsv path rows \<in> set (fst (fetch_atus_api_script py http))"
  shows "\<exists>out j. fetch_atus_data py http atus_series_ids ''2023'' ''2024'' = (out, Inr j) \<and>
           j \<noteq> JNull \<and> snd (parse_atus_response py j) = Inr (Some rows) \<and> rows \<noteq> []"
proof -
  obtain out1 r1 where f1: "fetch_atus_data py http test_series ''2023'' ''2024'' = (out1, r1)"
    by (cases "fetch_atus_data py http test_series ''2023'' ''2024''")
  obtain out2 r2 where f2: "fetch_atus_data py http atus_series_ids ''2023'' ''2024'' = (out2, r2)"
    by (cases "fetch_atus_data py http atus_series_ids ''2023'' ''2024''")
  show ?thesis
  proof (cases r1)
    case (Inl e)
    with assms f1 show ?thesis
      by (auto simp: fetch_atus_api_script_def run_def say_def)
  next
    case t: (Inr t)
    show ?thesis
    proof (cases "truthy py t")
      case False
      with assms f1 t show ?thesis
        by (auto simp: fetch_atus_api_script_def run_def say_def)
    next
      case True
      show ?thesis
      proof (cases r2)
        case (Inl e)
        with assms f1 f2 t True show ?thesis
          by (auto simp: fetch_atus_api_script_def run_def say_def)
      next
        case j: (Inr j)
        show ?thesis
        proof (cases "truthy py j")
          case False
          with assms f1 f2 t True j show ?thesis
            by (auto simp: fetch_atus_api_script_def run_def say_def)
        next
          case tj: True
          then have nn: "j \<noteq> JNull" by auto
          obtain out3 r3 where p: "parse_atus_response py j = (out3, r3)"
            by (cases "parse_atus_response py j")
          show ?thesis
          proof (cases r3)
            case (Inl e)
            with assms f1 f2 t True j tj p show ?thesis
              by (auto simp: fetch_atus_api_script_def run_def say_def)
          next
            case (Inr df)
            with assms f1 f2 t True j tj p nn show ?thesis
              by (auto simp: fetch_atus_api_script_def run_def say_def split: option.splits if_splits)
          qed
        qed
      qed
    qed
  qed
qed

text \<open>
  C5. \<open>parse_atus_response\<close> returns \<open>None\<close> for \<open>None\<close> and for every dict without the key
  \<open>Results\<close>. The script stops after a failed fetch: when the test fetch returns \<open>None\<close> it
  prints the failure line and nothing else, when the ATUS fetch returns \<open>None\<close> it prints
  \<open>Failed to fetch ATUS data\<close> and neither the lines of the parser nor a CSV follow, and a
  CSV is written only with the rows that \<open>parse_atus_response\<close> made of a fetch result
  other than \<open>None\<close>.
\<close>

theorem failed_fetch_skips_downstream:
  "parse_atus_response py JNull = ([], Inr None) \<and>
   (''Results'' \<notin> set (map fst kvs) \<longrightarrow> parse_atus_response py (JObj kvs) = ([], Inr None)) \<and>
   (fetch_atus_data py http test_series ''2023'' ''2024'' = (out1, Inr JNull) \<longrightarrow>
      fetch_atus_api_script py http =
        (Print ''Testing BLS API connection...'' # map Print out1
           @ [Print (newline # ''API connection test failed'')], Inr ())) \<and>
   (fetch_atus_data py http test_series ''2023'' ''2024'' = (out1, Inr t) \<and> truthy py t \<and>
    fetch_atus_data py http atus_series_ids ''2023'' ''2024'' = (out2, Inr JNull) \<longrightarrow>
      fetch_atus_api_script py http =
        (Print ''Testing BLS API connection...'' # map Print out1
           @ Print (newline # ''API connection successful! Now trying ATUS series...'') # map Print out2
           @ [Print (newline # ''Failed to fetch ATUS data'')], Inr ())) \<and>
   (ToCsv path rows \<in> set (fst (fetch_atus_api_script py http)) \<longrightarrow>
      (\<exists>out j. fetch_atus_data py http atus_series_ids ''2023'' ''2024'' = (out, Inr j) \<and>
         j \<noteq> JNull \<and> snd (parse_atus_response py j) = Inr (Some rows) \<and> rows \<noteq> []))"
  using parse_atus_response_None parse_atus_response_no_Results script_test_failed
    script_fetch_failed script_csv_only_after_fetch
  by blast


theorem failed_fetch_skips_downstream_witness:
  "parse_atus_response example_py (JObj [(''status'', JStr ''REQUEST_SUCCEEDED'')]) = ([], Inr None) \<and>
   fetch_atus_api_script example_py failing_http =
     ([Print ''Testing BLS API connection...'',
       Print ''Fetching data for series: [...]'',
       Print ''Years: 2023 to 2024'',
       Print ''Error making API request: timed out'',
       Print (newline # ''API connection test failed'')], Inr ()) \<and>
   fetch_atus_api_script example_py test_only_http =
     ([Print ''Testing BLS API connection...'',
       Print ''Fetching data for series: [...]'',
       Print ''Years: 2023 to 2024'',
       Print ''API request successful!'',
       Print (newline # ''API connection successful! Now trying ATUS series...''),
       Print ''Fetching data for series: [...]'',
       Print ''Years: 2023 to 2024'',
       Print ''Error making API request: timed out'',
       Print (newline # ''Failed to fetch ATUS data'')], Inr ()) \<and>
   (\<exists>rows out. ToCsv ''data/atus_api_data.csv'' rows \<in> set (fst (fetch_atus_api_script example_py good_http)) \<and>
      fetch_atus_data example_py good_http atus_series_ids ''2023'' ''2024''
        = (out, Inr example_atus_response) \<and>
      snd (parse_atus_response example_py example_atus_response) = Inr (Some rows) \<and>
      map (\<lambda>r. map_of r ''value'') rows = [Some (JFloat (507, 2)), Some (JFloat (515, 2))])"
proof -
  have k: "''Results'' \<notin> set (map fst [(''status'', JStr ''REQUEST_SUCCEEDED'' :: dec json)])"
    by simp
  have f1: "fetch_atus_data example_py failing_http test_series ''2023'' ''2024'' =
      ([''Fetching data for series: [...]'', ''Years: 2023 to 2024'',
        ''Error making API request: timed out''], Inr JNull)"
    by code_simp
  have f2: "fetch_atus_data example_py test_only_http test_series ''2023'' ''2024'' =
      ([''Fetching data for series: [...]'', ''Years: 2023 to 2024'',
        ''API request successful!''], Inr (JObj [(''status'', JStr ''REQUEST_SUCCEEDED'')]))"
    by code_simp
  have f3: "fetch_atus_data example_py test_only_http atus_series_ids ''2023'' ''2024'' =
      ([''Fetching data for series: [...]'', ''Years: 2023 to 2024'',
        ''Error making API request: timed out''], Inr JNull)"
    by code_simp
  have tr: "truthy example_py (JObj [(''status'', JStr ''REQUEST_SUCCEEDED'')])"
    by simp
  from failed_fetch_skips_downstream
         [where py = example_py and kvs = "[(''status'', JStr ''REQUEST_SUCCEEDED'')]"
            and http = failing_http
            and ?out1.0 = "[''Fetching data for series: [...]'', ''Years: 2023 to 2024'',
                    ''Error making API request: timed out'']"] k f1
  have a: "parse_atus_response example_py (JObj [(''status'', JStr ''REQUEST_SUCCEEDED'')]) = ([], Inr None)"
    and b: "fetch_atus_api_script example_py failing_http =
     (Print ''Testing BLS API connection...''
        # map Print [''Fetching data for series: [...]'', ''Years: 2023 to 2024'',
                    ''Error making API request: timed out'']
        @ [Print (newline # ''API connection test failed'')], Inr ())"
    by blast+
  from failed_fetch_skips_downstream
         [where py = example_py and http = test_only_http
            and ?out1.0 = "[''Fetching data for series: [...]'', ''Years: 2023 to 2024'',
                    ''API request successful!'']"
            and t = "JObj [(''status'', JStr ''REQUEST_SUCCEEDED'')]"
            and ?out2.0 = "[''Fetching data for series: [...]'', ''Years: 2023 to 2024'',
                    ''Error making API request: timed out'']"] f2 f3 tr
  have c: "fetch_atus_api_script example_py test_only_http =
        (Print ''Testing BLS API connection...''
           # map Print [''Fetching data for series: [...]'', ''Years: 2023 to 2024'',
                    ''API request successful!'']
           @ Print (newline # ''API connection successful! Now trying ATUS series...'')
           # map Print [''Fetching data for series: [...]'', ''Years: 2023 to 2024'',
                    ''Error making API request: timed out'']
           @ [Print (newline # ''Failed to fetch ATUS data'')], Inr ())"
    by blast
  let ?rows = "case snd (parse_atus_response example_py example_atus_response) of
                 Inr (Some rows) \<Rightarrow> rows | _ \<Rightarrow> []"
  have w: "ToCsv ''data/atus_api_data.csv'' ?rows
             \<in> set (fst (fetch_atus_api_script example_py good_http))"
    by code_simp
  have v: "map (\<lambda>r. map_of r ''value'') ?rows = [Some (JFloat (507, 2)), Some (JFloat (515, 2))]"
    by code_simp
  have g: "snd (fetch_atus_data example_py good_http atus_series_ids ''2023'' ''2024'')
             = Inr example_atus_response"
    by code_simp
  from failed_fetch_skips_downstream
         [where py = example_py and http = good_http and path = "''data/atus_api_data.csv''"
            and rows = ?rows] w
  obtain out j where
    d: "fetch_atus_data example_py good_http atus_series_ids ''2023'' ''2024'' = (out, Inr j)"
       "snd (parse_atus_response example_py j) = Inr (Some ?rows)"
    by blast
  from d(1) g have j: "j = example_atus_response" by simp
  have e: "\<exists>rows out. ToCsv ''data/atus_api_data.csv'' rows \<in> set (fst (fetch_atus_api_script example_py good_http)) \<and>
      fetch_atus_data example_py good_http atus_series_ids ''2023'' ''2024''
        = (out, Inr example_atus_response) \<and>
      snd (parse_atus_response example_py example_atus_response) = Inr (Some rows) \<and>
      map (\<lambda>r. map_of r ''value'') rows = [Some (JFloat (507, 2)), Some (JFloat (515, 2))]"
    using w d v unfolding j
    by (intro exI [where x = ?rows] exI [where x = out] conjI)
  from a b c e show ?thesis by simp
qed

section \<open>Properties of the patterns\<close>

lemma seq_lang_snoc:
  "seq_lang its a \<Longrightarrow> item_lang i b \<Longrightarrow> seq_lang (its @ [i]) (a @ b)"
proof (induction its arbitrary: a)
  case Nil
  then show ?case by simp
next
  case (Cons j its)
  from Cons.prems(1) obtain a1 a2 where a: "a = a1 @ a2" "item_lang j a1" "seq_lang its a2"
    by auto
  from Cons.IH [OF a(3) Cons.prems(2)] have "seq_lang (its @ [i]) (a2 @ b)" .
  with a show ?case by auto
qed

lemma plus_try_Some:
  "plus_try f n = Some r \<Longrightarrow> \<exists>k. 1 \<le> k \<and> k \<le> n \<and> f k = Some r"
proof (induction n)
  case 0
  then show ?case by simp
next
  case (Suc n)
  show ?case
  proof (cases "f (Suc n)")
    case None
    with Suc obtain k where "1 \<le> k" "k \<le> n" "f k = Some r" by auto
    then show ?thesis by (intro exI [of _ k]) simp
  next
    case (Some y)
    with Suc.prems have "f (Suc n) = Some r" by simp
    then show ?thesis by (intro exI [of _ "Suc n"]) simp
  qed
qed

lemma plus_segment:
  assumes "1 \<le> k" "k \<le> length (takeWhile (cls_match c) s)"
  shows "item_lang (Plus c) (take k s)"
proof -
  have "take k s = take k (takeWhile (cls_match c) s)"
    using assms(2)
    by (metis takeWhile_dropWhile_id take_append diff_is_0_eq' append.right_neutral take_0)
  moreover have "list_all (cls_match c) (takeWhile (cls_match c) s)"
    by (simp add: list_all_iff) (meson set_takeWhileD)
  ultimately have "list_all (cls_match c) (take k s)"
    by (simp add: list_all_iff) (meson in_set_takeD)
  moreover from assms have "take k s \<noteq> []"
    by (cases s) auto
  ultimately show ?thesis by simp
qed


lemma rel_snoc:
  assumes "rel_option (\<lambda>a its. seq_lang its a) g gi" "item_lang i b"
  shows "rel_option (\<lambda>a its. seq_lang its a)
           (map_option (\<lambda>a. a @ b) g) (map_option (\<lambda>its. its @ [i]) gi)"
  using assms by (cases g; cases gi) (simp_all add: seq_lang_snoc)

lemma match_items_sound:
  "match_items items s g = Some (gs, rest) \<Longrightarrow>
   rel_option (\<lambda>a its. seq_lang its a) g gi \<Longrightarrow>
     list_all2 (\<lambda>t its. seq_lang its t) gs (group_items items gi) \<and>
     (\<exists>t. s = t @ rest \<and> seq_lang items t)"
proof (induction items s g arbitrary: gs rest gi rule: match_items.induct)
  case (1 s g)
  then show ?case by simp
next
  case (2 c r s g)
  from "2.prems"(1) obtain x xs where s: "s = x # xs" and c: "cls_match c x"
    and m: "match_items r xs (map_option (\<lambda>a. a @ [x]) g) = Some (gs, rest)"
    by (cases s) (auto split: if_splits)
  have il: "item_lang (One c) [x]" using c by simp
  from "2.IH" [OF s c m rel_snoc [OF "2.prems"(2) il]]
  obtain t where t: "list_all2 (\<lambda>t its. seq_lang its t) gs
        (group_items r (map_option (\<lambda>its. its @ [One c]) gi))" "xs = t @ rest" "seq_lang r t"
    by blast
  have "seq_lang (One c # r) ([x] @ t)"
    unfolding seq_lang.simps using il t(3) by blast
  with t s show ?case by (intro conjI exI [of _ "[x] @ t"]) simp_all
next
  case (3 c r s g)
  from "3.prems"(1) obtain k where k: "1 \<le> k" "k \<le> length (takeWhile (cls_match c) s)"
    and m: "match_items r (drop k s) (map_option (\<lambda>a. a @ take k s) g) = Some (gs, rest)"
    by (auto dest: plus_try_Some)
  have il: "item_lang (Plus c) (take k s)" by (rule plus_segment [OF k])
  from "3.IH" [OF m rel_snoc [OF "3.prems"(2) il]]
  obtain t where t: "list_all2 (\<lambda>t its. seq_lang its t) gs
        (group_items r (map_option (\<lambda>its. its @ [Plus c]) gi))" "drop k s = t @ rest" "seq_lang r t"
    by blast
  have "seq_lang (Plus c # r) (take k s @ t)"
    unfolding seq_lang.simps using il t(3) by blast
  moreover have "s = (take k s @ t) @ rest"
    using t(2) by (metis append_assoc append_take_drop_id)
  ultimately show ?case using t(1) by (intro conjI exI [of _ "take k s @ t"]) simp_all
next
  case (4 r s g)
  from "4.prems"(1) have m: "match_items r s (Some []) = Some (gs, rest)" by simp
  have "rel_option (\<lambda>a its. seq_lang its a) (Some []) (Some [])" by simp
  from "4.IH" [OF m this]
  obtain t where t: "list_all2 (\<lambda>t its. seq_lang its t) gs (group_items r (Some []))"
    "s = t @ rest" "seq_lang r t"
    by blast
  have "seq_lang (Open # r) ([] @ t)"
    unfolding seq_lang.simps using t(3) by (intro exI [of _ "[]"] exI [of _ t]) simp
  with t show ?case by (intro conjI exI [of _ t]) simp_all
next
  case (5 r s g)
  from "5.prems"(1) obtain gs' where
    m: "match_items r s None = Some (gs', rest)"
    and gs: "gs = (case g of None \<Rightarrow> [] | Some a \<Rightarrow> a) # gs'"
    by auto
  have "rel_option (\<lambda>a its. seq_lang its a) None None" by simp
  from "5.IH" [OF m this]
  obtain t where t: "list_all2 (\<lambda>t its. seq_lang its t) gs' (group_items r None)"
    "s = t @ rest" "seq_lang r t"
    by blast
  have g: "seq_lang (case gi of None \<Rightarrow> [] | Some its \<Rightarrow> its) (case g of None \<Rightarrow> [] | Some a \<Rightarrow> a)"
    using "5.prems"(2) by (cases g; cases gi) simp_all
  have "seq_lang (Close # r) ([] @ t)"
    unfolding seq_lang.simps using t(3) by (intro exI [of _ "[]"] exI [of _ t]) simp
  with t g gs show ?case by (intro conjI exI [of _ t]) simp_all
next
  case (6 r s g)
  from "6.prems"(1) have e: "s = [] \<or> s = [newline]"
    and m: "match_items r s g = Some (gs, rest)"
    by (auto split: if_splits)
  have il: "item_lang Dollar []" by simp
  from rel_snoc [OF "6.prems"(2) il]
  have "rel_option (\<lambda>a its. seq_lang its a) g (map_option (\<lambda>its. its @ [Dollar]) gi)"
    by (simp add: option.map_ident)
  from "6.IH" [OF e m this]
  obtain t where t: "list_all2 (\<lambda>t its. seq_lang its t) gs
       (group_items r (map_option (\<lambda>its. its @ [Dollar]) gi))"
    "s = t @ rest" "seq_lang r t"
    by blast
  have "seq_lang (Dollar # r) ([] @ t)"
    unfolding seq_lang.simps using t(3) by (intro exI [of _ "[]"] exI [of _ t]) simp
  with t show ?case by (intro conjI exI [of _ t]) simp_all
qed


lemma match_groups:
  "match_items items s None = Some (gs, rest) \<Longrightarrow>
     list_all2 (\<lambda>t its. seq_lang its t) gs (group_items items None)"
  using match_items_sound [of items s None gs rest None] by simp

lemma match_text:
  "match_items items s None = Some (gs, rest) \<Longrightarrow> \<exists>t. s = t @ rest \<and> seq_lang items t"
  using match_items_sound [of items s None gs rest None] by simp

lemma search_groups:
  "search items s = Some (pre, gs, post) \<Longrightarrow>
     list_all2 (\<lambda>t its. seq_lang its t) gs (group_items items None)"
proof (induction s arbitrary: pre)
  case Nil
  then show ?case by (auto dest: match_groups)
next
  case (Cons x xs)
  show ?case
  proof (cases "match_items items (x # xs) None")
    case None
    with Cons.prems obtain pre' where "search items xs = Some (pre', gs, post)"
      by auto
    then show ?thesis by (rule Cons.IH)
  next
    case (Some m)
    with Cons.prems have "match_items items (x # xs) None = Some (gs, post)"
      by (cases m) simp
    then show ?thesis by (rule match_groups)
  qed
qed

lemma findall_from_sound:
  "m \<in> set (findall_from items n s) \<Longrightarrow> match_items items [] None = None \<Longrightarrow> seq_lang items m"
proof (induction items n s rule: findall_from.induct)
  case (1 r n)
  then show ?case by simp
next
  case (2 r n x xs)
  then show ?case by simp
next
  case (3 r x xs)
  show ?case
  proof (cases "match_items r (x # xs) None")
    case None
    with 3 show ?thesis by simp
  next
    case (Some res)
    obtain gs rest where res: "res = (gs, rest)" by (cases res)
    from match_text [of r "x # xs" gs rest] Some res
    obtain t where t: "x # xs = t @ rest" "seq_lang r t" by auto
    then have tk: "take (length (x # xs) - length rest) (x # xs) = t" by simp
    from "3.prems"(1) Some res
    have "m = take (length (x # xs) - length rest) (x # xs) \<or>
          m \<in> set (findall_from r (length (x # xs) - length rest - 1) xs)"
      by simp
    then show ?thesis
    proof
      assume "m = take (length (x # xs) - length rest) (x # xs)"
      with tk t show ?thesis by simp
    next
      assume "m \<in> set (findall_from r (length (x # xs) - length rest - 1) xs)"
      with "3.IH"(2) [OF Some res [symmetric]] "3.prems"(2) show ?thesis by simp
    qed
  qed
qed

lemma digits_lang:
  "seq_lang [Plus Digit] t \<Longrightarrow> t \<noteq> [] \<and> list_all is_digit t"
  by (auto simp: list_all_iff)

lemma dot_not_digit: "\<not> is_digit CHR ''.''"
  by (simp add: is_digit_def)

lemma is_decimalI:
  assumes "a \<noteq> []" "list_all is_digit a" "b \<noteq> []" "list_all is_digit b"
  shows "is_decimal (a @ CHR ''.'' # b)"
proof -
  have "takeWhile is_digit (a @ CHR ''.'' # b) = a"
    using assms(2) dot_not_digit by (simp add: list_all_iff)
  moreover have "dropWhile is_digit (a @ CHR ''.'' # b) = CHR ''.'' # b"
    using assms(2) dot_not_digit by (simp add: list_all_iff)
  ultimately show ?thesis using assms by (simp add: is_decimal_def)
qed

lemma cls_match_Digit: "cls_match Digit = is_digit"
  by (rule ext) simp

lemma decimal_lang:
  assumes "seq_lang decimal_items t"
  shows "is_decimal t"
proof -
  from assms obtain a c b where
    t: "t = a @ c @ b" and a: "item_lang (Plus Digit) a" and c: "item_lang (One (Lit CHR ''.'')) c"
    and b: "item_lang (Plus Digit) b"
    by (auto simp: decimal_items_def)
  from c have "c = [CHR ''.'']" by (auto split: list.splits)
  with t a b is_decimalI [of a b] show ?thesis by (simp add: cls_match_Digit)
qed

lemma is_decimal_nonempty: "is_decimal t \<Longrightarrow> t \<noteq> []"
  by (auto simp: is_decimal_def)

lemma findall_decimal:
  assumes "m \<in> set (findall decimal_items s)"
  shows "is_decimal m"
proof -
  have "match_items decimal_items [] None = None" by (simp add: decimal_items_def)
  with assms findall_from_sound [of m decimal_items 0 s]
  have "seq_lang decimal_items m" by (simp add: findall_def)
  then show ?thesis by (rule decimal_lang)
qed

section \<open>Properties of the time table scraper\<close>

lemma time_pattern_groups:
  assumes "search time_pattern line = Some (pre, gs, post)"
  shows "\<exists>a b. gs = [a, b] \<and> a \<noteq> [] \<and> list_all is_digit a \<and> b \<noteq> [] \<and> list_all is_digit b"
proof -
  have "group_items time_pattern None = [[Plus Digit], [Plus Digit]]"
    by (simp add: time_pattern_def)
  with search_groups [OF assms]
  have "list_all2 (\<lambda>t its. seq_lang its t) gs [[Plus Digit], [Plus Digit]]" by simp
  then obtain a b where "gs = [a, b]" "seq_lang [Plus Digit] a" "seq_lang [Plus Digit] b"
    by (auto simp: list_all2_Cons2)
  then show ?thesis by (auto simp: cls_match_Digit)
qed

lemma py_int_digits:
  "a \<noteq> [] \<Longrightarrow> list_all is_digit a \<Longrightarrow> py_int a = Inr (digits_value a)"
  by (simp add: py_int_def)

lemma time_use_line_total:
  "\<exists>rows. time_use_line raw = Inr rows \<and> list_all consistent rows"
proof (cases "strip raw = []")
  case True
  then show ?thesis by (simp add: time_use_line_def)
next
  case ne: False
  show ?thesis
  proof (cases "search time_pattern (strip raw)")
    case None
    with ne show ?thesis by (simp add: time_use_line_def)
  next
    case (Some m)
    obtain pre gs post where m: "m = (pre, gs, post)" by (cases m)
    from time_pattern_groups [of "strip raw" pre gs post] Some m
    obtain a b where g: "gs = [a, b]" "a \<noteq> []" "list_all is_digit a" "b \<noteq> []" "list_all is_digit b"
      by auto
    have "group gs 1 = Inr a" "group gs 2 = Inr b"
      using g(1) by (simp_all add: group_def)
    with g have "bind_err (group gs 1) py_int = Inr (digits_value a)"
      "bind_err (group gs 2) py_int = Inr (digits_value b)"
      by (simp_all add: py_int_digits)
    with ne Some m show ?thesis
      by (simp add: time_use_line_def Let_def consistent_def)
  qed
qed

lemma time_use_lines_total:
  "\<exists>rows. time_use_lines lines = Inr rows \<and> list_all consistent rows"
proof (induction lines)
  case Nil
  then show ?case by simp
next
  case (Cons line lines)
  from time_use_line_total [of line] obtain r1 where
    "time_use_line line = Inr r1" "list_all consistent r1" by blast
  moreover from Cons obtain r2 where "time_use_lines lines = Inr r2" "list_all consistent r2"
    by blast
  ultimately show ?case by simp
qed

lemma drop_duplicates_props:
  "set (drop_duplicates seen rs) \<subseteq> set rs \<and>
   distinct (map category (drop_duplicates seen rs)) \<and>
   (\<forall>r \<in> set (drop_duplicates seen rs).
      category r \<notin> set seen \<and> List.find (\<lambda>q. category q = category r) rs = Some r)"
proof (induction rs arbitrary: seen)
  case Nil
  then show ?case by simp
next
  case (Cons q rs)
  show ?case
  proof (cases "category q \<in> set seen")
    case True
    with Cons [of seen] show ?thesis by auto
  next
    case False
    with Cons [of "category q # seen"] show ?thesis by auto
  qed
qed

lemma distinct_map_insort_key:
  "distinct (map g (insort_key f x xs)) \<longleftrightarrow> g x \<notin> g ` set xs \<and> distinct (map g xs)"
  by (induction xs) (auto simp: set_insort_key)

lemma distinct_map_sort_key:
  "distinct (map g (sort_key f xs)) \<longleftrightarrow> distinct (map g xs)"
  by (induction xs) (simp_all add: distinct_map_insort_key)

lemma sort_values_desc_props:
  "set (sort_values_desc df) = set df \<and>
   (distinct (map category (sort_values_desc df)) \<longleftrightarrow> distinct (map category df)) \<and>
   sorted_wrt (\<lambda>a b. total_minutes b \<le> total_minutes a) (sort_values_desc df)"
proof -
  have "sorted (map (\<lambda>r. - total_minutes r) (sort_values_desc df))"
    by (simp add: sort_values_desc_def)
  then have "sorted_wrt (\<lambda>a b. total_minutes b \<le> total_minutes a) (sort_values_desc df)"
    by (simp add: sorted_map)
  then show ?thesis
    by (simp add: sort_values_desc_def distinct_map_sort_key)
qed

text \<open>
  C8. For every document \<open>extract_time_use_data\<close> returns a DataFrame, and in it every
  row has \<open>total_minutes\<close> above 0 and equal to \<open>hours * 60 + minutes\<close>, no two rows have
  the same category, each row is the first of its category among the scraped rows with
  positive \<open>total_minutes\<close>, and the rows are ordered by falling \<open>total_minutes\<close>.
\<close>

theorem extract_time_use_data_postconditions:
  "\<exists>raw df.
     time_use_lines (split_char newline (concat doc)) = Inr raw \<and>
     extract_time_use_data doc = Inr df \<and>
     (\<forall>r \<in> set df. 0 < total_minutes r \<and> total_minutes r = hours r * 60 + minutes r) \<and>
     distinct (map category df) \<and>
     (\<forall>r \<in> set df.
        List.find (\<lambda>q. category q = category r) (filter (\<lambda>q. 0 < total_minutes q) raw) = Some r) \<and>
     sorted_wrt (\<lambda>a b. total_minutes b \<le> total_minutes a) df"
proof -
  from time_use_lines_total [of "split_char newline (concat doc)"] obtain raw where
    raw: "time_use_lines (split_char newline (concat doc)) = Inr raw" "list_all consistent raw"
    by blast
  show ?thesis
  proof (cases "raw = []")
    case True
    with raw have "extract_time_use_data doc = Inr []"
      by (simp add: extract_time_use_data_def)
    with raw True show ?thesis by simp
  next
    case False
    let ?pos = "filter (\<lambda>q. 0 < total_minutes q) raw"
    let ?dd = "drop_duplicates [] ?pos"
    let ?df = "sort_values_desc ?dd"
    from raw False have df: "extract_time_use_data doc = Inr ?df"
      by (simp add: extract_time_use_data_def)
    note dd = drop_duplicates_props [of "[]" ?pos]
    note sv = sort_values_desc_props [of ?dd]
    from dd sv have sub: "set ?df \<subseteq> set ?pos" by simp
    have a: "\<forall>r \<in> set ?df. 0 < total_minutes r \<and> total_minutes r = hours r * 60 + minutes r"
    proof
      fix r assume "r \<in> set ?df"
      with sub have "r \<in> set ?pos" by blast
      with raw(2) show "0 < total_minutes r \<and> total_minutes r = hours r * 60 + minutes r"
        by (auto simp: list_all_iff consistent_def)
    qed
    have b: "distinct (map category ?df)" using dd sv by simp
    have c: "\<forall>r \<in> set ?df. List.find (\<lambda>q. category q = category r) ?pos = Some r"
      using dd sv by simp
    have d: "sorted_wrt (\<lambda>a b. total_minutes b \<le> total_minutes a) ?df" using sv by simp
    from raw(1) df a b c d show ?thesis by blast
  qed
qed


theorem extract_time_use_data_postconditions_witness:
  "extract_time_use_data example_pages =
     Inr [\<lparr>category = ''Sleeping'', hours = 8, minutes = 45, total_minutes = 525\<rparr>,
          \<lparr>category = ''Working'', hours = 7, minutes = 30, total_minutes = 450\<rparr>,
          \<lparr>category = ''Eating and drinking'', hours = 1, minutes = 7, total_minutes = 67\<rparr>] \<and>
   (\<exists>df. extract_time_use_data example_pages = Inr df \<and>
      (\<forall>r \<in> set df. 0 < total_minutes r \<and> total_minutes r = hours r * 60 + minutes r) \<and>
      distinct (map category df) \<and>
      sorted_wrt (\<lambda>a b. total_minutes b \<le> total_minutes a) df)"
proof -
  have ev: "extract_time_use_data example_pages =
     Inr [\<lparr>category = ''Sleeping'', hours = 8, minutes = 45, total_minutes = 525\<rparr>,
          \<lparr>category = ''Working'', hours = 7, minutes = 30, total_minutes = 450\<rparr>,
          \<lparr>category = ''Eating and drinking'', hours = 1, minutes = 7, total_minutes = 67\<rparr>]"
    by code_simp
  from extract_time_use_data_postconditions [of example_pages]
  have "\<exists>df. extract_time_use_data example_pages = Inr df \<and>
      (\<forall>r \<in> set df. 0 < total_minutes r \<and> total_minutes r = hours r * 60 + minutes r) \<and>
      distinct (map category df) \<and>
      sorted_wrt (\<lambda>a b. total_minutes b \<le> total_minutes a) df"
    by blast
  with ev show ?thesis by (rule conjI)
qed

section \<open>Properties of the key statistics and of Table 11A\<close>

lemma if_match_cases:
  assumes "if_match pattern text store ks = Inr ks'"
  shows "(search pattern text = None \<and> ks' = ks) \<or>
         (\<exists>pre gs post. search pattern text = Some (pre, gs, post) \<and> store gs ks = Inr ks')"
  using assms by (auto simp: if_match_def split: option.splits)

lemma set_update_subset: "set (AList.update k v ks) \<subseteq> insert (k, v) (set ks)"
  by (induction ks) auto

lemma store_float_result:
  "store_float py k n gs ks = Inr ks' \<Longrightarrow> \<exists>x. ks' = AList.update k (JFloat x) ks"
  by (auto simp: store_float_def bind_err_Inr_iff)

lemma store_int_result:
  "store_int k n gs ks = Inr ks' \<Longrightarrow> \<exists>i. ks' = AList.update k (JInt i) ks"
  by (auto simp: store_int_def bind_err_Inr_iff)

text \<open>A stored entry is the new one or an old one.\<close>

lemma store_float_entries:
  assumes "store_float py k n gs ks = Inr ks'" "kv \<in> set ks'"
  shows "kv \<in> set ks \<or> (fst kv = k \<and> is_float (snd kv))"
proof -
  from store_float_result [OF assms(1)] obtain x where "ks' = AList.update k (JFloat x) ks" ..
  with assms(2) set_update_subset [of k "JFloat x" ks] show ?thesis by auto
qed

lemma store_int_entries:
  assumes "store_int k n gs ks = Inr ks'" "kv \<in> set ks'"
  shows "kv \<in> set ks \<or> (fst kv = k \<and> is_int (snd kv))"
proof -
  from store_int_result [OF assms(1)] obtain i where "ks' = AList.update k (JInt i) ks" ..
  with assms(2) set_update_subset [of k "JInt i" ks] show ?thesis by auto
qed

lemma step_float:
  assumes "if_match pattern text (store_float py k n) ks = Inr ks'" "stats_ok text ks"
    and "k \<in> set hour_keys" "pattern_of_key k = Some pattern"
  shows "stats_ok text ks'"
proof -
  from if_match_cases [OF assms(1)] show ?thesis
  proof
    assume "search pattern text = None \<and> ks' = ks"
    with assms(2) show ?thesis by simp
  next
    assume "\<exists>pre gs post. search pattern text = Some (pre, gs, post) \<and> store_float py k n gs ks = Inr ks'"
    then obtain pre gs post where s: "search pattern text = Some (pre, gs, post)"
      and st: "store_float py k n gs ks = Inr ks'" by blast
    from s assms(4) have m: "stat_matched text k" by (simp add: stat_matched_def)
    show ?thesis unfolding stats_ok_def
    proof
      fix kv assume "kv \<in> set ks'"
      from store_float_entries [OF st this] assms(2,3) m
      show "stat_typed kv \<and> stat_matched text (fst kv)"
        by (auto simp: stats_ok_def stat_typed_def)
    qed
  qed
qed

lemma step_int:
  assumes "if_match pattern text (store_int k n) ks = Inr ks'" "stats_ok text ks"
    and "k \<in> set minute_keys" "pattern_of_key k = Some pattern"
  shows "stats_ok text ks'"
proof -
  from if_match_cases [OF assms(1)] show ?thesis
  proof
    assume "search pattern text = None \<and> ks' = ks"
    with assms(2) show ?thesis by simp
  next
    assume "\<exists>pre gs post. search pattern text = Some (pre, gs, post) \<and> store_int k n gs ks = Inr ks'"
    then obtain pre gs post where s: "search pattern text = Some (pre, gs, post)"
      and st: "store_int k n gs ks = Inr ks'" by blast
    from s assms(4) have m: "stat_matched text k" by (simp add: stat_matched_def)
    show ?thesis unfolding stats_ok_def
    proof
      fix kv assume "kv \<in> set ks'"
      from store_int_entries [OF st this] assms(2,3) m
      show "stat_typed kv \<and> stat_matched text (fst kv)"
        by (auto simp: stats_ok_def stat_typed_def)
    qed
  qed
qed

lemma step_gender:
  assumes "if_match gender_pattern text
             (\<lambda>gs ks. bind_err (store_float py ''men_leisure_hours'' 1 gs ks)
                        (store_float py ''women_leisure_hours'' 2 gs)) ks = Inr ks'"
    and "stats_ok text ks"
  shows "stats_ok text ks'"
proof -
  from if_match_cases [OF assms(1)] show ?thesis
  proof
    assume "search gender_pattern text = None \<and> ks' = ks"
    with assms(2) show ?thesis by simp
  next
    assume "\<exists>pre gs post. search gender_pattern text = Some (pre, gs, post) \<and>
       bind_err (store_float py ''men_leisure_hours'' 1 gs ks)
         (store_float py ''women_leisure_hours'' 2 gs) = Inr ks'"
    then obtain pre gs post mid where s: "search gender_pattern text = Some (pre, gs, post)"
      and st1: "store_float py ''men_leisure_hours'' 1 gs ks = Inr mid"
      and st2: "store_float py ''women_leisure_hours'' 2 gs mid = Inr ks'"
      by (auto simp: bind_err_Inr_iff)
    from s have m: "stat_matched text ''men_leisure_hours''" "stat_matched text ''women_leisure_hours''"
      by (simp_all add: stat_matched_def pattern_of_key_def)
    have mid: "stats_ok text mid" unfolding stats_ok_def
    proof
      fix kv assume "kv \<in> set mid"
      from store_float_entries [OF st1 this] assms(2) m
      show "stat_typed kv \<and> stat_matched text (fst kv)"
        by (auto simp: stats_ok_def stat_typed_def hour_keys_def)
    qed
    show ?thesis unfolding stats_ok_def
    proof
      fix kv assume "kv \<in> set ks'"
      from store_float_entries [OF st2 this] mid m
      show "stat_typed kv \<and> stat_matched text (fst kv)"
        by (auto simp: stats_ok_def stat_typed_def hour_keys_def)
    qed
  qed
qed

lemma key_statistics_ok:
  assumes "key_statistics_of_text py text = Inr ks"
  shows "stats_ok text ks"
proof -
  from assms obtain s1 s2 s3 s4 where
    a: "if_match tv_pattern text (store_float py ''tv_hours'' 1) [] = Inr s1"
    and b: "if_match leisure_pattern text (store_float py ''total_leisure_hours'' 1) s1 = Inr s2"
    and c: "if_match gaming_pattern text (store_int ''gaming_minutes'' 1) s2 = Inr s3"
    and d: "if_match social_pattern text (store_int ''socializing_minutes'' 1) s3 = Inr s4"
    and e: "if_match gender_pattern text
             (\<lambda>gs ks. bind_err (store_float py ''men_leisure_hours'' 1 gs ks)
                        (store_float py ''women_leisure_hours'' 2 gs)) s4 = Inr ks"
    unfolding key_statistics_of_text_def bind_err_Inr_iff by blast
  have "stats_ok text []" by (simp add: stats_ok_def)
  from step_float [OF a this] have "stats_ok text s1"
    by (simp add: hour_keys_def pattern_of_key_def)
  from step_float [OF b this] have "stats_ok text s2"
    by (simp add: hour_keys_def pattern_of_key_def)
  from step_int [OF c this] have "stats_ok text s3"
    by (simp add: minute_keys_def pattern_of_key_def)
  from step_int [OF d this] have "stats_ok text s4"
    by (simp add: minute_keys_def pattern_of_key_def)
  from step_gender [OF e this] show ?thesis .
qed

lemma is_ok_iff: "is_ok m \<longleftrightarrow> (\<exists>x. m = Inr x)"
  by (cases m) simp_all

lemma hours_groups:
  assumes "pattern = tv_pattern \<or> pattern = leisure_pattern"
    and "search pattern text = Some (pre, gs, post)"
  shows "\<exists>d. gs = [d] \<and> is_decimal d"
proof -
  from assms(1) have "group_items pattern None = [decimal_items]"
    by (auto simp: tv_pattern_def leisure_pattern_def hours_per_day_items_def lits_def
          decimal_items_def)
  with search_groups [OF assms(2)]
  have "list_all2 (\<lambda>t its. seq_lang its t) gs [decimal_items]" by simp
  then obtain d where "gs = [d]" "seq_lang decimal_items d"
    by (auto simp: list_all2_Cons2)
  then show ?thesis by (auto dest: decimal_lang)
qed

lemma minutes_groups:
  assumes "pattern = gaming_pattern \<or> pattern = social_pattern"
    and "search pattern text = Some (pre, gs, post)"
  shows "\<exists>a. gs = [a] \<and> a \<noteq> [] \<and> list_all is_digit a"
proof -
  from assms(1) have "group_items pattern None = [[Plus Digit]]"
    by (auto simp: gaming_pattern_def social_pattern_def lits_def)
  with search_groups [OF assms(2)]
  have "list_all2 (\<lambda>t its. seq_lang its t) gs [[Plus Digit]]" by simp
  then obtain a where "gs = [a]" "seq_lang [Plus Digit] a"
    by (auto simp: list_all2_Cons2)
  then show ?thesis by (auto simp: cls_match_Digit)
qed

lemma gender_groups:
  assumes "search gender_pattern text = Some (pre, gs, post)"
  shows "\<exists>d e. gs = [d, e] \<and> is_decimal d \<and> is_decimal e"
proof -
  have "group_items gender_pattern None = [decimal_items, decimal_items]"
    by (simp add: gender_pattern_def lits_def decimal_items_def)
  with search_groups [OF assms]
  have "list_all2 (\<lambda>t its. seq_lang its t) gs [decimal_items, decimal_items]" by simp
  then obtain d e where "gs = [d, e]" "seq_lang decimal_items d" "seq_lang decimal_items e"
    by (auto simp: list_all2_Cons2)
  then show ?thesis by (auto dest: decimal_lang)
qed

lemma store_float_total:
  assumes "float_reads_decimals py" "1 \<le> n" "n \<le> length gs" "is_decimal (gs ! (n - 1))"
  shows "\<exists>ks'. store_float py k n gs ks = Inr ks'"
proof -
  from assms(1,4) obtain x where "float_conv py (JStr (gs ! (n - 1))) = Inr x"
    by (auto simp: float_reads_decimals_def is_ok_iff)
  with assms(2,3) show ?thesis by (simp add: store_float_def group_def)
qed

lemma step_hours_total:
  assumes "float_reads_decimals py" "pattern = tv_pattern \<or> pattern = leisure_pattern"
  shows "\<exists>ks'. if_match pattern text (store_float py k 1) ks = Inr ks'"
proof (cases "search pattern text")
  case None
  then show ?thesis by (simp add: if_match_def)
next
  case (Some m)
  obtain pre gs post where m: "m = (pre, gs, post)" by (cases m)
  from hours_groups [OF assms(2)] Some m obtain d where "gs = [d]" "is_decimal d" by blast
  with store_float_total [OF assms(1), of 1 gs k ks] Some m show ?thesis
    by (simp add: if_match_def)
qed

lemma step_minutes_total:
  assumes "pattern = gaming_pattern \<or> pattern = social_pattern"
  shows "\<exists>ks'. if_match pattern text (store_int k 1) (ks :: 'f row) = Inr (ks' :: 'f row)"
proof (cases "search pattern text")
  case None
  then show ?thesis by (simp add: if_match_def)
next
  case (Some m)
  obtain pre gs post where m: "m = (pre, gs, post)" by (cases m)
  from minutes_groups [OF assms] Some m obtain a where "gs = [a]" "a \<noteq> []" "list_all is_digit a"
    by blast
  with Some m show ?thesis
    by (simp add: if_match_def store_int_def group_def py_int_def)
qed

lemma step_gender_total:
  assumes "float_reads_decimals py"
  shows "\<exists>ks'. if_match gender_pattern text
             (\<lambda>gs ks. bind_err (store_float py ''men_leisure_hours'' 1 gs ks)
                        (store_float py ''women_leisure_hours'' 2 gs)) ks = Inr ks'"
proof (cases "search gender_pattern text")
  case None
  then show ?thesis by (simp add: if_match_def)
next
  case (Some m)
  obtain pre gs post where m: "m = (pre, gs, post)" by (cases m)
  from gender_groups Some m obtain d e where g: "gs = [d, e]" "is_decimal d" "is_decimal e"
    by blast
  from store_float_total [OF assms, of 1 gs "''men_leisure_hours''" ks] g
  obtain mid where mid: "store_float py ''men_leisure_hours'' 1 gs ks = Inr mid" by auto
  from store_float_total [OF assms, of 2 gs "''women_leisure_hours''" mid] g
  obtain ks' where "store_float py ''women_leisure_hours'' 2 gs mid = Inr ks'" by auto
  with mid Some m show ?thesis by (simp add: if_match_def)
qed

lemma key_statistics_total:
  assumes "float_reads_decimals py"
  shows "\<exists>ks. key_statistics_of_text py text = Inr ks"
proof -
  from step_hours_total [OF assms, of tv_pattern "text" "''tv_hours''" "[]"]
  obtain s1 where a: "if_match tv_pattern text (store_float py ''tv_hours'' 1) [] = Inr s1"
    by auto
  from step_hours_total [OF assms, of leisure_pattern "text" "''total_leisure_hours''" s1]
  obtain s2 where b: "if_match leisure_pattern text (store_float py ''total_leisure_hours'' 1) s1 = Inr s2"
    by auto
  from step_minutes_total [of gaming_pattern "text" "''gaming_minutes''" s2]
  obtain s3 where c: "if_match gaming_pattern text (store_int ''gaming_minutes'' 1) s2 = Inr s3"
    by auto
  from step_minutes_total [of social_pattern "text" "''socializing_minutes''" s3]
  obtain s4 where d: "if_match social_pattern text (store_int ''socializing_minutes'' 1) s3 = Inr s4"
    by auto
  from step_gender_total [OF assms, of "text" s4] obtain ks where
    "if_match gender_pattern text
             (\<lambda>gs ks. bind_err (store_float py ''men_leisure_hours'' 1 gs ks)
                        (store_float py ''women_leisure_hours'' 2 gs)) s4 = Inr ks"
    by auto
  with a b c d show ?thesis by (simp add: key_statistics_of_text_def)
qed

lemma key_statistics_nothing_found:
  assumes "\<forall>pattern \<in> {tv_pattern, leisure_pattern, gaming_pattern, social_pattern, gender_pattern}.
             search pattern text = None"
  shows "key_statistics_of_text py text = Inr []"
  using assms by (simp add: key_statistics_of_text_def if_match_def)

lemma table_11a_line_cases:
  assumes "table_11a_line py line = Inr rows"
  shows "rows = [] \<or>
         (has_keyword line \<and> 7 \<le> length (findall decimal_items line) \<and>
          (\<exists>row. rows = [row] \<and> table_11a_row py line (findall decimal_items line) = Inr row))"
  using assms
  by (auto simp: table_11a_line_def Let_def bind_err_Inr_iff split: if_splits)

lemma table_11a_lines_rows:
  "table_11a_lines py lines = Inr rows \<Longrightarrow>
     \<forall>row \<in> set rows. \<exists>line \<in> set lines.
        has_keyword line \<and> 7 \<le> length (findall decimal_items line) \<and>
        table_11a_row py line (findall decimal_items line) = Inr row"
proof (induction lines arbitrary: rows)
  case Nil
  then show ?case by simp
next
  case (Cons line lines)
  from Cons.prems obtain r1 r2 where
    r: "table_11a_line py line = Inr r1" "table_11a_lines py lines = Inr r2" "rows = r1 @ r2"
    by (auto simp: bind_err_Inr_iff)
  from table_11a_line_cases [OF r(1)] Cons.IH [OF r(2)] r(3) show ?case
    by auto
qed

lemma table_11a_nothing_found:
  "\<forall>line \<in> set lines. \<not> has_keyword line \<or> length (findall decimal_items line) < 7 \<Longrightarrow>
     table_11a_lines py lines = Inr []"
proof (induction lines)
  case Nil
  then show ?case by simp
next
  case (Cons line lines)
  then have "table_11a_line py line = Inr []"
    by (auto simp: table_11a_line_def Let_def)
  with Cons show ?case by simp
qed

lemma table_11a_row_total:
  assumes "float_reads_decimals py" "7 \<le> length numbers" "\<forall>m \<in> set numbers. is_decimal m"
  shows "\<exists>row. table_11a_row py line numbers = Inr row"
proof -
  have f: "\<exists>x. float_conv py (JStr (numbers ! i)) = Inr x" if "i < length numbers" for i
    using assms(1,3) that by (auto simp: float_reads_decimals_def is_ok_iff)
  have g: "\<exists>x. float_conv py (JStr (numbers ! i)) = Inr x" if "i < 7" for i
    using f [of i] that assms(2) by simp
  from g [of 0] obtain x0 where x0: "float_conv py (JStr (numbers ! 0)) = Inr x0" by auto
  from g [of 1] obtain x1 where x1: "float_conv py (JStr (numbers ! 1)) = Inr x1" by auto
  from g [of 2] obtain x2 where x2: "float_conv py (JStr (numbers ! 2)) = Inr x2" by auto
  from g [of 3] obtain x3 where x3: "float_conv py (JStr (numbers ! 3)) = Inr x3" by auto
  from g [of 4] obtain x4 where x4: "float_conv py (JStr (numbers ! 4)) = Inr x4" by auto
  from g [of 5] obtain x5 where x5: "float_conv py (JStr (numbers ! 5)) = Inr x5" by auto
  from g [of 6] obtain x6 where x6: "float_conv py (JStr (numbers ! 6)) = Inr x6" by auto
  note a = x0 x1 x2 x3 and b = x4 x5 x6
  have "\<exists>other. (if 7 < length numbers
               then bind_err (float_conv py (JStr (numbers ! 7))) (\<lambda>x. Inr (JFloat x))
               else Inr (JInt 0)) = Inr other"
    using f [of 7] by auto
  then obtain other where c: "(if 7 < length numbers
               then bind_err (float_conv py (JStr (numbers ! 7))) (\<lambda>x. Inr (JFloat x))
               else Inr (JInt 0)) = Inr other" ..
  from assms(2) have "0 < length numbers" by linarith
  then have "numbers ! 0 \<in> set numbers" by (rule nth_mem)
  with assms(3) have "is_decimal (numbers ! 0)" by blast
  then have "numbers ! 0 \<noteq> []" by (rule is_decimal_nonempty)
  then have d: "split_first (numbers ! 0) line = Inr (before_first (numbers ! 0) line)"
    by (simp add: split_first_def)
  show ?thesis
    unfolding table_11a_row_def using a b c d by simp
qed

lemma table_11a_line_total:
  assumes "float_reads_decimals py"
  shows "\<exists>rows. table_11a_line py line = Inr rows"
proof (cases "strip line \<noteq> [] \<and> has_keyword line \<and> 7 \<le> length (findall decimal_items line)")
  case True
  from table_11a_row_total [OF assms, of "findall decimal_items line" line] True
  obtain row where "table_11a_row py line (findall decimal_items line) = Inr row"
    by (auto dest: findall_decimal)
  with True show ?thesis by (auto simp: table_11a_line_def Let_def)
next
  case False
  then show ?thesis by (auto simp: table_11a_line_def Let_def)
qed

lemma table_11a_lines_total:
  assumes "float_reads_decimals py"
  shows "\<exists>rows. table_11a_lines py lines = Inr rows"
proof (induction lines)
  case Nil
  then show ?case by simp
next
  case (Cons line lines)
  from table_11a_line_total [OF assms, of line] obtain r1 where "table_11a_line py line = Inr r1" ..
  moreover from Cons obtain r2 where "table_11a_lines py lines = Inr r2" ..
  ultimately show ?case by simp
qed

lemma example_py_reads_decimals: "float_reads_decimals example_py"
  by (auto simp: float_reads_decimals_def example_py_def is_decimal_def dec_of_string_def Let_def
           split: list.splits)

lemma is_float_iff: "is_float v \<longleftrightarrow> (\<exists>x. v = JFloat x)"
  by (cases v) simp_all

lemma is_int_iff: "is_int v \<longleftrightarrow> (\<exists>i. v = JInt i)"
  by (cases v) simp_all

text \<open>
  C6. The dict that \<open>extract_key_statistics\<close> makes of a page text has its keys among
  \<open>tv_hours\<close>, \<open>total_leisure_hours\<close>, \<open>gaming_minutes\<close>, \<open>socializing_minutes\<close>,
  \<open>men_leisure_hours\<close> and \<open>women_leisure_hours\<close>; the value of an hour key is a float and
  the value of a minute key an int. The function returns such a dict for every text, given
  that \<open>float\<close> reads the numerals \<open>\d+\.\d+\<close>.
\<close>

theorem key_statistics_keys_and_types:
  "(key_statistics_of_text py text = Inr ks \<longrightarrow>
      set (map fst ks) \<subseteq> {''tv_hours'', ''total_leisure_hours'', ''gaming_minutes'',
                             ''socializing_minutes'', ''men_leisure_hours'', ''women_leisure_hours''} \<and>
      (\<forall>k v. (k, v) \<in> set ks \<longrightarrow>
         (k \<in> set hour_keys \<longrightarrow> (\<exists>x. v = JFloat x)) \<and>
         (k \<in> set minute_keys \<longrightarrow> (\<exists>i. v = JInt i)))) \<and>
   (float_reads_decimals py \<longrightarrow> (\<exists>ks. key_statistics_of_text py text = Inr ks))"
proof (intro conjI impI)
  assume r: "key_statistics_of_text py text = Inr ks"
  from key_statistics_ok [OF r] have t: "\<forall>kv \<in> set ks. stat_typed kv"
    by (simp add: stats_ok_def)
  show "set (map fst ks) \<subseteq> {''tv_hours'', ''total_leisure_hours'', ''gaming_minutes'',
                             ''socializing_minutes'', ''men_leisure_hours'', ''women_leisure_hours''}"
  proof
    fix k assume "k \<in> set (map fst ks)"
    then obtain v where "(k, v) \<in> set ks" by auto
    with t have "stat_typed (k, v)" by blast
    then show "k \<in> {''tv_hours'', ''total_leisure_hours'', ''gaming_minutes'',
                    ''socializing_minutes'', ''men_leisure_hours'', ''women_leisure_hours''}"
      by (auto simp: stat_typed_def hour_keys_def minute_keys_def)
  qed
  show "\<forall>k v. (k, v) \<in> set ks \<longrightarrow>
         (k \<in> set hour_keys \<longrightarrow> (\<exists>x. v = JFloat x)) \<and>
         (k \<in> set minute_keys \<longrightarrow> (\<exists>i. v = JInt i))"
  proof (intro allI impI)
    fix k v assume "(k, v) \<in> set ks"
    with t have "stat_typed (k, v)" by blast
    then show "(k \<in> set hour_keys \<longrightarrow> (\<exists>x. v = JFloat x)) \<and>
               (k \<in> set minute_keys \<longrightarrow> (\<exists>i. v = JInt i))"
      by (auto simp: stat_typed_def hour_keys_def minute_keys_def is_float_iff is_int_iff)
  qed
next
  assume "float_reads_decimals py"
  then show "\<exists>ks. key_statistics_of_text py text = Inr ks"
    by (rule key_statistics_total)
qed

theorem key_statistics_keys_and_types_witness:
  "float_reads_decimals example_py \<and>
   key_statistics_of_text example_py example_summary =
     Inr [(''tv_hours'', JFloat (26, 1)), (''total_leisure_hours'', JFloat (51, 1)),
          (''socializing_minutes'', JInt 35)] \<and>
   (\<exists>ks. key_statistics_of_text example_py example_summary = Inr ks \<and>
      set (map fst ks) \<subseteq> {''tv_hours'', ''total_leisure_hours'', ''gaming_minutes'',
                             ''socializing_minutes'', ''men_leisure_hours'', ''women_leisure_hours''} \<and>
      (\<forall>k v. (k, v) \<in> set ks \<longrightarrow>
         (k \<in> set hour_keys \<longrightarrow> (\<exists>x. v = JFloat x)) \<and>
         (k \<in> set minute_keys \<longrightarrow> (\<exists>i. v = JInt i))))"
proof -
  have ev: "key_statistics_of_text example_py example_summary =
     Inr [(''tv_hours'', JFloat (26, 1)), (''total_leisure_hours'', JFloat (51, 1)),
          (''socializing_minutes'', JInt 35)]"
    by code_simp
  note t = key_statistics_keys_and_types [of example_py example_summary
      "[(''tv_hours'', JFloat (26, 1)), (''total_leisure_hours'', JFloat (51, 1)),
        (''socializing_minutes'', JInt 35)]"]
  from t ev have "\<exists>ks. key_statistics_of_text example_py example_summary = Inr ks \<and>
      set (map fst ks) \<subseteq> {''tv_hours'', ''total_leisure_hours'', ''gaming_minutes'',
                             ''socializing_minutes'', ''men_leisure_hours'', ''women_leisure_hours''} \<and>
      (\<forall>k v. (k, v) \<in> set ks \<longrightarrow>
         (k \<in> set hour_keys \<longrightarrow> (\<exists>x. v = JFloat x)) \<and>
         (k \<in> set minute_keys \<longrightarrow> (\<exists>i. v = JInt i)))"
    by blast
  with example_py_reads_decimals ev show ?thesis by blast
qed

text \<open>
  C4. A key is in the dict of \<open>extract_key_statistics\<close> only if its pattern matched the
  page text, and a text that no pattern matches gives the empty dict. Each row of
  \<open>extract_table_11a_data\<close> comes from a line with a demographic keyword and at least seven
  numerals \<open>\d+\.\d+\<close>, and lines of which none is such give no row. Neither function
  raises an error, whatever matched, given that \<open>float\<close> reads these numerals, and
  \<open>process_and_save_data\<close> takes the empty dict as it is: nothing checks that a statistic
  was found.
\<close>

theorem extraction_fails_silently:
  "(key_statistics_of_text py text = Inr ks \<longrightarrow> (\<forall>k \<in> set (map fst ks). stat_matched text k)) \<and>
   ((\<forall>pattern \<in> {tv_pattern, leisure_pattern, gaming_pattern, social_pattern, gender_pattern}.
       search pattern text = None) \<longrightarrow> key_statistics_of_text py text = Inr []) \<and>
   (table_11a_lines py lines = Inr rows \<longrightarrow>
      (\<forall>row \<in> set rows. \<exists>line \<in> set lines.
          has_keyword line \<and> 7 \<le> length (findall decimal_items line) \<and>
          table_11a_row py line (findall decimal_items line) = Inr row)) \<and>
   ((\<forall>line \<in> set lines. \<not> has_keyword line \<or> length (findall decimal_items line) < 7) \<longrightarrow>
      table_11a_lines py lines = Inr []) \<and>
   (float_reads_decimals py \<longrightarrow>
      is_ok (key_statistics_of_text py text) \<and> is_ok (table_11a_lines py lines)) \<and>
   process_and_save_data py [] = ([], None)"
proof (intro conjI impI)
  assume r: "key_statistics_of_text py text = Inr ks"
  from key_statistics_ok [OF r] show "\<forall>k \<in> set (map fst ks). stat_matched text k"
    by (auto simp: stats_ok_def)
next
  assume "\<forall>pattern \<in> {tv_pattern, leisure_pattern, gaming_pattern, social_pattern, gender_pattern}.
       search pattern text = None"
  then show "key_statistics_of_text py text = Inr []"
    by (rule key_statistics_nothing_found)
next
  assume "table_11a_lines py lines = Inr rows"
  then show "\<forall>row \<in> set rows. \<exists>line \<in> set lines.
          has_keyword line \<and> 7 \<le> length (findall decimal_items line) \<and>
          table_11a_row py line (findall decimal_items line) = Inr row"
    by (rule table_11a_lines_rows)
next
  assume "\<forall>line \<in> set lines. \<not> has_keyword line \<or> length (findall decimal_items line) < 7"
  then show "table_11a_lines py lines = Inr []"
    by (rule table_11a_nothing_found)
next
  assume f: "float_reads_decimals py"
  from key_statistics_total [OF f] show "is_ok (key_statistics_of_text py text)"
    by (simp add: is_ok_iff)
  from table_11a_lines_total [OF f] show "is_ok (table_11a_lines py lines)"
    by (simp add: is_ok_iff)
next
  show "process_and_save_data py [] = ([], None)"
    by (simp add: process_and_save_data_def add_minutes_def)
qed

theorem extraction_fails_silently_witness:
  "key_statistics_of_text example_py example_summary =
     Inr [(''tv_hours'', JFloat (26, 1)), (''total_leisure_hours'', JFloat (51, 1)),
          (''socializing_minutes'', JInt 35)] \<and>
   stat_matched example_summary ''tv_hours'' \<and>
   stat_matched example_summary ''total_leisure_hours'' \<and>
   stat_matched example_summary ''socializing_minutes'' \<and>
   key_statistics_of_text example_py ''No statistics on this page.'' = Inr [] \<and>
   (\<exists>row. table_11a_lines example_py example_table = Inr [row] \<and>
      table_11a_row example_py (example_table ! 1) (findall decimal_items (example_table ! 1)) = Inr row) \<and>
   table_11a_lines example_py
     [''Women ........ 4.7 0.2 0.6 2.4 0.3'', ''Weekdays 4.6 0.3 0.5 2.5 0.3 0.3 0.5 0.2''] = Inr []"
proof -
  let ?ks = "[(''tv_hours'', JFloat (26, 1)), (''total_leisure_hours'', JFloat (51, 1)),
              (''socializing_minutes'', JInt 35)] :: dec row"
  let ?quiet = "''No statistics on this page.''"
  let ?short = "[''Women ........ 4.7 0.2 0.6 2.4 0.3'', ''Weekdays 4.6 0.3 0.5 2.5 0.3 0.3 0.5 0.2'']"
  let ?row = "case table_11a_lines example_py example_table of Inr [row] \<Rightarrow> row | _ \<Rightarrow> []"
  have ev: "key_statistics_of_text example_py example_summary = Inr ?ks"
    by code_simp
  have tb: "table_11a_lines example_py example_table = Inr [?row]"
    by code_simp
  have n1: "search tv_pattern ?quiet = None" by code_simp
  have n2: "search leisure_pattern ?quiet = None" by code_simp
  have n3: "search gaming_pattern ?quiet = None" by code_simp
  have n4: "search social_pattern ?quiet = None" by code_simp
  have n5: "search gender_pattern ?quiet = None" by code_simp
  have none: "\<forall>pattern \<in> {tv_pattern, leisure_pattern, gaming_pattern, social_pattern, gender_pattern}.
       search pattern ?quiet = None"
    using n1 n2 n3 n4 n5 by simp
  have s1: "\<not> has_keyword ''Weekdays 4.6 0.3 0.5 2.5 0.3 0.3 0.5 0.2''" by code_simp
  have s2: "length (findall decimal_items ''Women ........ 4.7 0.2 0.6 2.4 0.3'') < 7" by code_simp
  have short: "\<forall>line \<in> set ?short. \<not> has_keyword line \<or> length (findall decimal_items line) < 7"
    using s1 s2 by simp
  note t1 = extraction_fails_silently
    [where py = example_py and ?text = example_summary and ks = ?ks and lines = example_table
       and rows = "[?row]"]
  note t2 = extraction_fails_silently
    [where py = example_py and ?text = ?quiet and lines = ?short]
  from t1 ev have m: "\<forall>k \<in> set (map fst ?ks). stat_matched example_summary k"
    by blast
  from t1 tb have "\<forall>row \<in> set [?row]. \<exists>line \<in> set example_table.
          has_keyword line \<and> 7 \<le> length (findall decimal_items line) \<and>
          table_11a_row example_py line (findall decimal_items line) = Inr row"
    by blast
  then obtain line where l: "line \<in> set example_table" "has_keyword line"
    "7 \<le> length (findall decimal_items line)"
    "table_11a_row example_py line (findall decimal_items line) = Inr ?row"
    by auto
  have only: "\<forall>line \<in> set example_table.
     has_keyword line \<and> 7 \<le> length (findall decimal_items line) \<longrightarrow> line = example_table ! 1"
    by code_simp
  with l have "line = example_table ! 1" by blast
  with l(4) have r: "table_11a_row example_py (example_table ! 1)
      (findall decimal_items (example_table ! 1)) = Inr ?row" by simp
  from t2 none have q: "key_statistics_of_text example_py ?quiet = Inr []" by blast
  from t2 short have e: "table_11a_lines example_py ?short = Inr []" by blast
  from ev m q tb r e show ?thesis by simp
qed

end
